theory Spec2Isabelle
  imports Complex_Main "HOL-Library.Multiset"
begin

section \<open>Errors\<close>

text \<open>
  Every way in which run_link_prop.py (or a library call it makes) can raise is a value
  of this type; a fallible function returns \<open>error + 'a\<close> with \<open>Inl\<close> the error.
\<close>

datatype error =
  AssertionError | AttributeError | IndexError | RuntimeError | TypeError | ValueError

section \<open>Single precision\<close>

text \<open>
  The values of a \<open>torch.float\<close> tensor are IEEE binary32 numbers. \<open>fl32 x\<close> is the
  binary32 number nearest to the real \<open>x\<close>, a tie going to the even mantissa: with \<open>e\<close>
  the binary exponent of \<open>x\<close> (not below -126, where the subnormal numbers begin) the
  binary32 numbers around \<open>x\<close> are the multiples of \<open>2 ^ (e - 23)\<close>. \<open>expo\<close> finds the
  exponent by halving and doubling, in more steps than the binary32 range needs. The
  model has finite numbers only: overflow to \<open>inf\<close>, and \<open>nan\<close>, are outside it.
\<close>

definition pow2 :: "int \<Rightarrow> real" where
  "pow2 k = (if 0 \<le> k then 2 ^ nat k else 1 / 2 ^ nat (- k))"

fun expo :: "nat \<Rightarrow> real \<Rightarrow> int \<Rightarrow> int" where
  "expo 0 x e = e"
| "expo (Suc n) x e =
     (if 2 \<le> x then expo n (x / 2) (e + 1)
      else if x < 1 then expo n (x * 2) (e - 1)
      else e)"

definition round_even :: "real \<Rightarrow> int" where
  "round_even y =
     (let f = \<lfloor>y\<rfloor>; d = y - of_int f
      in if d < 1 / 2 then f else if 1 / 2 < d then f + 1 else if even f then f else f + 1)"

definition fl32 :: "real \<Rightarrow> real" where
  "fl32 x =
     (if x = 0 then 0
      else let e = max (expo 300 \<bar>x\<bar> 0) (- 126); u = pow2 (e - 23)
           in of_int (round_even (x / u)) * u)"

section \<open>Sparse tensors\<close>

text \<open>
  A \<open>torch_sparse.SparseTensor\<close> is a shape and the stored triplets (row, col, value) in
  storage order. Row and column ids are \<open>torch.long\<close>, integers here: the library checks
  an id against the size of its dimension from above only, so a negative id can be stored.
  Values are binary32 numbers; the arithmetic of the sparse primitives below rounds with
  \<open>fl32\<close> after every operation, as the CPU kernels of the library do.
\<close>

type_synonym entry = "int \<times> int \<times> real"

record SparseTensor =
  nrows :: nat
  ncols :: nat
  entries :: "entry list"

definition e_row :: "entry \<Rightarrow> int" where
  "e_row e = fst e"

definition e_col :: "entry \<Rightarrow> int" where
  "e_col e = fst (snd e)"

definition e_val :: "entry \<Rightarrow> real" where
  "e_val e = snd (snd e)"

definition coord :: "entry \<Rightarrow> int \<times> int" where
  "coord e = (e_row e, e_col e)"

text \<open>The storage key \<open>row * N + col\<close> by which the library orders and groups triplets.\<close>

definition idx :: "nat \<Rightarrow> entry \<Rightarrow> int" where
  "idx N e = e_row e * int N + e_col e"

text \<open>
  The constructor \<open>SparseTensor(row=, col=, value=, sparse_sizes=)\<close> keeps duplicates and
  puts the triplets in key order. The library asserts that the largest row id and the
  largest column id are below the declared sizes, and has no check from below. Every id
  that the program itself produces comes from \<open>enumerate\<close>, \<open>arange\<close>, \<open>nonzero\<close> or
  \<open>topk\<close> and is not negative; \<open>in_bounds\<close> says that every id is inside the shape. It is
  an invariant of the tensors the program builds, and a hypothesis wherever a lemma needs
  it. A tensor with a negative id can only come out of \<open>sparse_assign\<close> called with a
  negative index. The library's \<open>argsort\<close> leaves the order of triplets of equal key open;
  the model keeps their order of arrival.
\<close>

definition mk_sparse :: "nat \<Rightarrow> nat \<Rightarrow> entry list \<Rightarrow> SparseTensor" where
  "mk_sparse m n es = \<lparr>nrows = m, ncols = n, entries = sort_key (idx n) es\<rparr>"

definition in_bounds :: "SparseTensor \<Rightarrow> bool" where
  "in_bounds m =
     (\<forall>e \<in> set (entries m). 0 \<le> e_row e \<and> e_row e < int (nrows m) \<and>
                              0 \<le> e_col e \<and> e_col e < int (ncols m))"

text \<open>The spec's invariant of an interaction matrix: no coordinate is stored twice.\<close>

definition no_dups :: "SparseTensor \<Rightarrow> bool" where
  "no_dups m = distinct (map coord (entries m))"

text \<open>
  The reductions of \<open>coalesce\<close>. A sum is accumulated triplet by triplet in binary32; a
  maximum is exact.
\<close>

datatype reduce = ReduceAdd | ReduceMax

fun reduce_op :: "reduce \<Rightarrow> real \<Rightarrow> real \<Rightarrow> real" where
  "reduce_op ReduceAdd a b = fl32 (a + b)"
| "reduce_op ReduceMax a b = max a b"

text \<open>
  \<^verbatim>\<open>
  def coalesce(self, reduce="add"):
      idx = self._col.new_full((self._col.numel() + 1, ), -1)
      idx[1:] = self._sparse_sizes[1] * self.row() + self._col
      mask = idx[1:] > idx[:-1]
      row = self.row()[mask]
      col = self._col[mask]
      ptr = mask.nonzero().flatten()
      ptr = torch.cat([ptr, ptr.new_full((1, ), value.size(0))])
      value = segment_csr(value, ptr, reduce=reduce)
  \<close>
  A group starts at each triplet whose key is above the key before it, the key before
  the first triplet being -1. The triplets in front of the first group are dropped
  (\<open>drop_head\<close>): in key order these are the triplets of the least key when that key is
  negative. A group keeps the coordinate of its first triplet and the reduction of its
  values in storage order (\<open>coalesce_list\<close>, for triplets in key order, which is how the
  constructor stores them).
\<close>

fun drop_head :: "nat \<Rightarrow> int \<Rightarrow> entry list \<Rightarrow> entry list" where
  "drop_head N prev [] = []"
| "drop_head N prev (e # es) = (if prev < idx N e then e # es else drop_head N (idx N e) es)"

fun coalesce_list :: "reduce \<Rightarrow> nat \<Rightarrow> entry list \<Rightarrow> entry list" where
  "coalesce_list rd N [] = []"
| "coalesce_list rd N [e] = [e]"
| "coalesce_list rd N (e # e' # es) =
     (if idx N e < idx N e' then e # coalesce_list rd N (e' # es)
      else coalesce_list rd N ((e_row e, e_col e, reduce_op rd (e_val e) (e_val e')) # es))"

definition coalesce :: "reduce \<Rightarrow> SparseTensor \<Rightarrow> SparseTensor" where
  "coalesce rd m =
     m\<lparr>entries := coalesce_list rd (ncols m) (drop_head (ncols m) (- 1) (entries m))\<rparr>"

text \<open>
  \<open>to_dense\<close> writes the stored values into a zero matrix with \<open>mat[row, col] = value\<close>, so
  a cell holds the value of the last triplet stored for it, and 0 when there is none. In
  that write torch counts a negative id from the end of its dimension (\<open>wrap_index\<close>); an
  id below minus the size makes it raise IndexError, which the read \<open>cell\<close> leaves out.
\<close>

definition wrap_index :: "nat \<Rightarrow> int \<Rightarrow> int" where
  "wrap_index n x = (if x < 0 then x + int n else x)"

definition cell :: "SparseTensor \<Rightarrow> nat \<Rightarrow> nat \<Rightarrow> real" where
  "cell m i j =
     (case filter (\<lambda>e. wrap_index (nrows m) (e_row e) = int i \<and>
                        wrap_index (ncols m) (e_col e) = int j) (entries m) of
        [] \<Rightarrow> 0
      | e # es \<Rightarrow> e_val (last (e # es)))"

text \<open>
  The read \<open>m[i, j].to_dense().squeeze()\<close> of one cell with integer indices. The library
  narrows the rows and then the columns to one position:
  \<^verbatim>\<open>
  def narrow(src, dim, start, length):
      if start < 0:
          start = src.size(dim) + start
      if dim == 0:
          rowptr, col, value = src.csr()
          rowptr = rowptr.narrow(0, start=start, length=length + 1)
          row_start = rowptr[0]
          ...
          row = src.storage._row
          if row is not None:
              row = row.narrow(0, row_start, row_length) - start
          ...
      elif dim == 1:
          row, col, value = src.coo()
          mask = (col >= start) & (col < start + length)
          row = row[mask]
          col = col[mask] - start
          ...
          storage = SparseStorage(row=row, rowptr=None, col=col, value=value,
                                  sparse_sizes=(src.sparse_size(0), length), ...)
  \<close>
  The row pointer has one position more than the tensor has rows. \<open>torch.narrow\<close> refuses
  a start outside \<open>[-size, size]\<close> (IndexError), counts a negative start from the end, and
  refuses a range that runs past the end (RuntimeError). A row index below \<open>-rows\<close> is
  therefore counted from the end a second time, by torch; the row ids of the narrowed
  tensor are then off by \<open>rows + 1\<close>, and the constructor of the column step asserts that
  they are below 1 as soon as a triplet is selected. The column step selects by comparison
  and raises nothing.
\<close>

definition select_cell :: "SparseTensor \<Rightarrow> int \<Rightarrow> int \<Rightarrow> error + real" where
  "select_cell m i j =
     (let size0 = int (nrows m) + 1;
          start0 = (if i < 0 then int (nrows m) + i else i);
          start1 = (if j < 0 then int (ncols m) + j else j)
      in if start0 < - size0 \<or> size0 < start0 then Inl IndexError
         else
           let r = (if start0 < 0 then start0 + size0 else start0)
           in if size0 - 2 < r then Inl RuntimeError
              else
                let hits = filter (\<lambda>e. e_row e = r \<and> e_col e = start1) (entries m)
                in if hits \<noteq> [] \<and> r - start0 \<noteq> 0 then Inl AssertionError
                   else Inr (case hits of [] \<Rightarrow> 0 | e # es \<Rightarrow> e_val (last (e # es))))"

text \<open>
  \<^verbatim>\<open>
  def sparse_assign(m, i, j, val):
      assert i < m.size(0) and j < m.size(1), "can only assign to existing indices"
      row, col, value = m.coo()
      prev = m[i.item(), j.item()].to_dense().squeeze()
      return SparseTensor(
          row=torch.cat((row, torch.tensor([i], dtype=torch.long))),
          col=torch.cat((col, torch.tensor([j], dtype=torch.long))),
          value=torch.cat((value, torch.tensor([val], dtype=torch.float) - prev)),
          sparse_sizes=(m.size(0), m.size(1)),
      ).coalesce("add")
  \<close>
  \<open>i\<close> and \<open>j\<close> are integer tensors of one element. The assertion has no lower bound.
  \<open>val\<close> is converted to binary32 before the subtraction.
\<close>

definition sparse_assign :: "SparseTensor \<Rightarrow> int \<Rightarrow> int \<Rightarrow> real \<Rightarrow> error + SparseTensor" where
  "sparse_assign m i j val =
     (if \<not> (i < int (nrows m) \<and> j < int (ncols m)) then Inl AssertionError
      else case select_cell m i j of
             Inl e \<Rightarrow> Inl e
           | Inr prev \<Rightarrow>
               Inr (coalesce ReduceAdd
                      (mk_sparse (nrows m) (ncols m)
                         (entries m @ [(i, j, fl32 (fl32 val - prev))]))))"

text \<open>
  \<^verbatim>\<open>
  def sparse_nonzero(m):
      row, col, value = m.clone().coo()
      return (row[value != 0], col[value != 0], value[value != 0])
  \<close>
\<close>

definition sparse_nonzero :: "SparseTensor \<Rightarrow> entry list" where
  "sparse_nonzero m = filter (\<lambda>e. e_val e \<noteq> 0) (entries m)"

text \<open>
  Indexing with a boolean mask, \<open>m[mask, :]\<close> and \<open>m[:, mask]\<close>: the selected rows (columns)
  are kept and renumbered by their rank among the selected ones. \<open>selected mask\<close> is
  \<open>torch.arange(len(mask))[mask]\<close>.
\<close>

definition mask_at :: "bool list \<Rightarrow> int \<Rightarrow> bool" where
  "mask_at msk i = (0 \<le> i \<and> nat i < length msk \<and> msk ! nat i)"

definition selected :: "bool list \<Rightarrow> nat list" where
  "selected msk = filter (\<lambda>i. msk ! i) [0..<length msk]"

definition rank_of :: "bool list \<Rightarrow> nat \<Rightarrow> nat" where
  "rank_of msk i = length (filter (\<lambda>i. msk ! i) [0..<i])"

definition masked_select :: "nat \<Rightarrow> SparseTensor \<Rightarrow> bool list \<Rightarrow> SparseTensor" where
  "masked_select axis m msk =
     (if axis = 0 then
        \<lparr>nrows = length (selected msk), ncols = ncols m,
         entries = map (\<lambda>e. (int (rank_of msk (nat (e_row e))), e_col e, e_val e))
                     (filter (\<lambda>e. mask_at msk (e_row e)) (entries m))\<rparr>
      else
        \<lparr>nrows = nrows m, ncols = length (selected msk),
         entries = map (\<lambda>e. (e_row e, int (rank_of msk (nat (e_col e))), e_val e))
                     (filter (\<lambda>e. mask_at msk (e_col e)) (entries m))\<rparr>)"

text \<open>
  \<^verbatim>\<open>
  def sparse_re_assign_on_mask(m, mask, val, dim=0):
      row, col, value = m.coo()
      prev_row, prev_col, prev_value = m[mask, :].coo() if dim == 0 else m[:, mask].coo()
      if dim == 0:
          prev_row = torch.arange(len(mask))[mask][prev_row]
      else:
          prev_col = torch.arange(len(mask))[mask][prev_col]
      return SparseTensor(row=cat(row, prev_row), col=cat(col, prev_col),
                          value=cat(value, val - prev_value),
                          sparse_sizes=(m.size(0), m.size(1))).coalesce("add")
  \<close>
  The mask has the length of the masked dimension, as the docstring of the source assumes.
  \<open>val - prev_value\<close> is a binary32 subtraction, and so is the sum that \<open>coalesce\<close> forms
  of a stored value and its difference to \<open>val\<close>.
\<close>

definition sparse_re_assign_on_mask ::
  "SparseTensor \<Rightarrow> bool list \<Rightarrow> real \<Rightarrow> nat \<Rightarrow> SparseTensor" where
  "sparse_re_assign_on_mask m msk val axis =
     (let prev = entries (masked_select axis m msk);
          restored =
            (if axis = 0
             then map (\<lambda>e. (int (selected msk ! nat (e_row e)), e_col e,
                            fl32 (fl32 val - e_val e))) prev
             else map (\<lambda>e. (e_row e, int (selected msk ! nat (e_col e)),
                            fl32 (fl32 val - e_val e))) prev)
      in coalesce ReduceAdd (mk_sparse (nrows m) (ncols m) (entries m @ restored)))"

text \<open>
  \<open>m.sum(dim=1)\<close> and \<open>m.sum(dim=0)\<close>: the sums of the stored values of each row, each
  column. These sums, like the degrees, powers and scores of the predictor below, are
  exact reals in the model.
\<close>

definition sum_dim1 :: "SparseTensor \<Rightarrow> real list" where
  "sum_dim1 m =
     map (\<lambda>r. sum_list (map e_val (filter (\<lambda>e. e_row e = int r) (entries m)))) [0..<nrows m]"

definition sum_dim0 :: "SparseTensor \<Rightarrow> real list" where
  "sum_dim0 m =
     map (\<lambda>c. sum_list (map e_val (filter (\<lambda>e. e_col e = int c) (entries m)))) [0..<ncols m]"

section \<open>Holdout sampling\<close>

text \<open>
  \<^verbatim>\<open>
  def sample_user_items(target, ratio=0.4):
      """Drop some edges for users that have more than 1 item"""
      user_deg = target.sum(dim=1)
      candidate = sparse_re_assign_on_mask(target, user_deg > 1, 2, dim=0)
      row, col, value = sparse_nonzero(candidate)
      rand_mask = (value == 2) & (
          torch.rand(len(value)) < ((value == 2).sum() / len(value) * ratio))
      value[rand_mask] = 0
      value[value == 2] = 1
      data = SparseTensor(row=row, col=col, value=value, sparse_sizes=...).coalesce("add")
      # take observed out of ground truth
      row, col, value = data.clone().coo()
      value[value == 1] = 2
      value[value == 0] = 1
      value[value == 2] = 0
      target_new_links = SparseTensor(row=row, col=col, value=value,
                                      sparse_sizes=...).coalesce("add")
      return data, target_new_links
  \<close>
  The draws of \<open>torch.rand\<close> are a parameter: \<open>rnd p\<close> is the draw for position \<open>p\<close> of
  the triplet list.
\<close>

definition rand_mask :: "(nat \<Rightarrow> real) \<Rightarrow> real \<Rightarrow> entry list \<Rightarrow> bool list" where
  "rand_mask rnd ratio nz =
     (let thr = real (length (filter (\<lambda>e. e_val e = 2) nz)) / real (length nz) * ratio
      in map (\<lambda>p. e_val (nz ! p) = 2 \<and> rnd p < thr) [0..<length nz])"

definition settle :: "bool \<Rightarrow> entry \<Rightarrow> entry" where
  "settle held e =
     (if held then (e_row e, e_col e, 0)
      else if e_val e = 2 then (e_row e, e_col e, 1)
      else e)"

definition recode :: "entry \<Rightarrow> entry" where
  "recode e =
     (let v1 = (if e_val e = 1 then 2 else e_val e);
          v2 = (if v1 = 0 then 1 else v1);
          v3 = (if v2 = 2 then 0 else v2)
      in (e_row e, e_col e, v3))"

text \<open>\<open>user_deg > 1\<close>, the rows whose triplets are marked with the sentinel 2.\<close>

definition deg_mask :: "SparseTensor \<Rightarrow> bool list" where
  "deg_mask target = map (\<lambda>d. d > 1) (sum_dim1 target)"

definition candidate :: "SparseTensor \<Rightarrow> SparseTensor" where
  "candidate target = sparse_re_assign_on_mask target (deg_mask target) 2 0"

text \<open>The positive entries of a row: the columns whose cell is above zero.\<close>

definition positives :: "SparseTensor \<Rightarrow> nat \<Rightarrow> nat set" where
  "positives m r = {c. 0 < cell m r c}"

definition sample_user_items ::
  "(nat \<Rightarrow> real) \<Rightarrow> SparseTensor \<Rightarrow> real \<Rightarrow> SparseTensor \<times> SparseTensor" where
  "sample_user_items rnd target ratio =
     (let nz = sparse_nonzero (candidate target);
          held = rand_mask rnd ratio nz;
          data = coalesce ReduceAdd
                   (mk_sparse (nrows target) (ncols target) (map2 settle held nz));
          target_new_links =
            coalesce ReduceAdd
              (mk_sparse (nrows target) (ncols target) (map recode (entries data)))
      in (data, target_new_links))"

section \<open>Mean average precision\<close>

text \<open>A float64 result of numpy: a number, or \<open>nan\<close> (the mean of an empty array).\<close>

datatype npfloat = Num real | NaN

text \<open>
  \<open>np.intersect1d(ar1, ar2, assume_unique=True, return_indices=True)\<close> concatenates the two
  arrays, sorts the positions of the concatenation by value with a stable sort, and reports
  a common value wherever two neighbours of the sorted sequence are equal; its third result
  is the position of the second neighbour, less the length of \<open>ar1\<close>.
\<close>

fun adjacent_equal :: "('a \<Rightarrow> nat) \<Rightarrow> 'a list \<Rightarrow> 'a list" where
  "adjacent_equal f (x # y # zs) = (if f y = f x then [y] else []) @ adjacent_equal f (y # zs)"
| "adjacent_equal f zs = []"

definition intersect1d_idx2 :: "nat list \<Rightarrow> nat list \<Rightarrow> int list" where
  "intersect1d_idx2 ar1 ar2 =
     (let aux = ar1 @ ar2;
          aux_sort_indices = sort_key (\<lambda>p. aux ! p) [0..<length aux]
      in map (\<lambda>p. int p - int (length ar1)) (adjacent_equal (\<lambda>p. aux ! p) aux_sort_indices))"

text \<open>
  \<open>rel_at_k[idx, inter_idxs] = 1\<close> on a row of \<open>k\<close> zeros: a negative index counts from the
  end, an index outside \<open>[-k, k)\<close> raises IndexError.
\<close>

definition rel_row :: "nat \<Rightarrow> int list \<Rightarrow> error + nat list" where
  "rel_row k inter_idxs =
     (if \<exists>j \<in> set inter_idxs. j < - int k \<or> int k \<le> j then Inl IndexError
      else Inr (map (\<lambda>p. if int p \<in> set inter_idxs \<or> int p - int k \<in> set inter_idxs
                          then 1 else 0) [0..<k]))"

text \<open>The loop over \<open>zip(y_true, y_pred)\<close>; the rows that \<open>zip\<close> does not reach stay zero.\<close>

fun rel_rows :: "nat \<Rightarrow> nat list list \<Rightarrow> nat list list \<Rightarrow> error + nat list list" where
  "rel_rows k [] y_pred = Inr []"
| "rel_rows k (truth # ts) [] =
     (case rel_rows k ts [] of Inl e \<Rightarrow> Inl e | Inr rs \<Rightarrow> Inr (replicate k 0 # rs))"
| "rel_rows k (truth # ts) (pred # ps) =
     (case rel_row k (intersect1d_idx2 truth (take k pred)) of
        Inl e \<Rightarrow> Inl e
      | Inr r \<Rightarrow> (case rel_rows k ts ps of Inl e \<Rightarrow> Inl e | Inr rs \<Rightarrow> Inr (r # rs)))"

fun cumsum_from :: "nat \<Rightarrow> nat list \<Rightarrow> nat list" where
  "cumsum_from acc [] = []"
| "cumsum_from acc (x # xs) = (acc + x) # cumsum_from (acc + x) xs"

definition cumsum :: "nat list \<Rightarrow> nat list" where
  "cumsum xs = cumsum_from 0 xs"

definition np_mean :: "npfloat list \<Rightarrow> npfloat" where
  "np_mean xs =
     (if xs = [] \<or> NaN \<in> set xs then NaN
      else Num (sum_list (map (\<lambda>x. case x of Num v \<Rightarrow> v | NaN \<Rightarrow> 0) xs) / real (length xs)))"

text \<open>
  \<^verbatim>\<open>
  def mean_average_precision(y_true, y_pred, k=12):
      rel_at_k = np.zeros((len(y_true), k), dtype=int)
      for idx, (truth, pred) in enumerate(zip(y_true, y_pred)):
          _, _, inter_idxs = np.intersect1d(
              truth, pred[:k], assume_unique=True, return_indices=True)
          rel_at_k[idx, inter_idxs] = 1
      intersection_count_at_k = rel_at_k.cumsum(axis=1)
      ranks = np.arange(1, k + 1, 1)
      precisions_at_k = intersection_count_at_k / ranks
      precisions_at_k = precisions_at_k * rel_at_k
      average_precisions_at_k = precisions_at_k.mean(axis=1)
      map_at_k = average_precisions_at_k.mean()
      return map_at_k
  \<close>
  \<open>np.zeros\<close> refuses a negative \<open>k\<close> with ValueError.
\<close>

definition precisions_at_k :: "nat list \<Rightarrow> real list" where
  "precisions_at_k rel =
     map (\<lambda>p. real (cumsum rel ! p) / real (p + 1) * real (rel ! p)) [0..<length rel]"

definition mean_average_precision ::
  "nat list list \<Rightarrow> nat list list \<Rightarrow> int \<Rightarrow> error + npfloat" where
  "mean_average_precision y_true y_pred k =
     (if k < 0 then Inl ValueError
      else case rel_rows (nat k) y_true y_pred of
        Inl e \<Rightarrow> Inl e
      | Inr rel_at_k \<Rightarrow>
          let average_precisions_at_k =
                map (\<lambda>rel. np_mean (map Num (precisions_at_k rel))) rel_at_k
          in Inr (np_mean average_precisions_at_k))"

section \<open>Dense blocks and sparse products\<close>

record DenseTensor =
  drows :: nat
  dcols :: nat
  dat :: "nat \<Rightarrow> nat \<Rightarrow> real"

definition to_dense :: "SparseTensor \<Rightarrow> DenseTensor" where
  "to_dense m = \<lparr>drows = nrows m, dcols = ncols m, dat = cell m\<rparr>"

definition dense_sum :: "DenseTensor \<Rightarrow> real" where
  "dense_sum d = sum_list (map (\<lambda>r. sum_list (map (dat d r) [0..<dcols d])) [0..<drows d])"

text \<open>
  The row slice \<open>m[start:stop]\<close> narrows the row pointer to \<open>max(stop - start, 0) + 1\<close>
  positions from \<open>start\<close>; torch refuses a start beyond the pointer (IndexError) and a range
  that runs past its end (RuntimeError). The library does not clamp \<open>stop\<close>.
\<close>

definition slice_rows :: "SparseTensor \<Rightarrow> nat \<Rightarrow> nat \<Rightarrow> error + SparseTensor" where
  "slice_rows m start stop =
     (let len = stop - start
      in if nrows m + 1 < start then Inl IndexError
         else if nrows m < start + len then Inl RuntimeError
         else Inr \<lparr>nrows = len, ncols = ncols m,
                   entries = map (\<lambda>e. (e_row e - int start, e_col e, e_val e))
                               (filter (\<lambda>e. int start \<le> e_row e \<and> e_row e < int (start + len))
                                  (entries m))\<rparr>)"

definition transpose_sparse :: "SparseTensor \<Rightarrow> SparseTensor" where
  "transpose_sparse m =
     mk_sparse (ncols m) (nrows m) (map (\<lambda>e. (e_col e, e_row e, e_val e)) (entries m))"

text \<open>
  \<open>matmul\<close> of two sparse tensors: the library asserts that the inner sizes agree; the
  product stores one triplet for each coordinate reached through a stored pair, holding
  the sum of the products, each product and each partial sum a binary32 number.
\<close>

definition matmul :: "SparseTensor \<Rightarrow> SparseTensor \<Rightarrow> error + SparseTensor" where
  "matmul a b =
     (if ncols a \<noteq> nrows b then Inl AssertionError
      else Inr (coalesce ReduceAdd
                  (mk_sparse (nrows a) (ncols b)
                     (concat (map (\<lambda>x. map (\<lambda>y. (e_row x, e_col y, fl32 (e_val x * e_val y)))
                                            (filter (\<lambda>y. e_row y = e_col x) (entries b)))
                                  (entries a))))))"

text \<open>
  \<open>topk(k, dim=1)\<close> on one row: the \<open>k\<close> largest values with their positions, largest
  first. torch leaves the order among equal values open; the model takes them in order of
  position, and the lemmas about the returned ids do not use that order. torch refuses \<open>k\<close> outside
  \<open>[0, number of columns]\<close>.
\<close>

definition topk_row :: "nat \<Rightarrow> real list \<Rightarrow> (real \<times> nat) list" where
  "topk_row k vs = map (\<lambda>p. (vs ! p, p)) (take k (sort_key (\<lambda>p. - (vs ! p)) [0..<length vs]))"

text \<open>Broadcasting of two sizes of one dimension, and the read of a broadcast block.\<close>

definition broadcast :: "nat \<Rightarrow> nat \<Rightarrow> nat option" where
  "broadcast a b =
     (if a = b then Some a else if a = 1 then Some b else if b = 1 then Some a else None)"

definition bat :: "DenseTensor \<Rightarrow> nat \<Rightarrow> nat \<Rightarrow> real" where
  "bat d r c = dat d (if drows d = 1 then 0 else r) (if dcols d = 1 then 0 else c)"

section \<open>The predictor\<close>

text \<open>
  The fields of \<open>LinkPropMulti\<close>; \<open>None\<close> is Python's \<open>None\<close>. \<open>self.M\<close> is set to \<open>None\<close>
  by \<open>__init__\<close> and never assigned again.
\<close>

record LinkPropMulti =
  lp_rounds :: int
  lp_k :: int
  lp_t :: real
  lp_alpha :: real
  lp_beta :: real
  lp_gamma :: real
  lp_delta :: real
  user_degrees :: "real list option"
  item_degrees :: "real list option"
  self_M :: "SparseTensor option"
  M_alpha_beta :: "SparseTensor option"
  M_gamma_delta :: "SparseTensor option"

definition init :: "real \<Rightarrow> real \<Rightarrow> real \<Rightarrow> real \<Rightarrow> int \<Rightarrow> real \<Rightarrow> int \<Rightarrow> LinkPropMulti" where
  "init a b g d rounds t k =
     \<lparr>lp_rounds = rounds, lp_k = k, lp_t = t, lp_alpha = a, lp_beta = b, lp_gamma = g,
      lp_delta = d, user_degrees = None, item_degrees = None, self_M = None,
      M_alpha_beta = None, M_gamma_delta = None\<rparr>"

text \<open>
  \<open>degrees ** (-a)\<close> followed by \<open>x[torch.isinf(x)] = 0.0\<close>, for a degree \<open>d \<ge> 0\<close>: a zero
  degree gives \<open>inf\<close>, replaced by 0, when \<open>a > 0\<close>; it gives 1 when \<open>a = 0\<close> and 0 when
  \<open>a < 0\<close>.
\<close>

definition neg_pow :: "real \<Rightarrow> real \<Rightarrow> real" where
  "neg_pow d a = (if d = 0 then (if a = 0 then 1 else 0) else d powr (- a))"

text \<open>
  \<open>user_alpha[row] * item_beta[col] * value\<close>; an index tensor may hold negative ids, which
  torch counts from the end.
\<close>

definition reweight :: "real list \<Rightarrow> real list \<Rightarrow> entry list \<Rightarrow> entry list" where
  "reweight us vs es =
     map (\<lambda>e. (e_row e, e_col e,
               us ! nat (wrap_index (length us) (e_row e)) *
               vs ! nat (wrap_index (length vs) (e_col e)) * e_val e)) es"

text \<open>
  \<^verbatim>\<open>
  def fit(self, M):
      self.M_alpha_beta = None
      self.M_gamma_delta = None
      if self.user_degrees == None:
          self.user_degrees = M.sum(dim=1)
          self.item_degrees = M.sum(dim=0)
      user_alpha = self.user_degrees ** (-self.alpha)
      item_beta = self.item_degrees ** (-self.beta)
      user_gamma = self.user_degrees ** (-self.gamma)
      item_delta = self.item_degrees ** (-self.delta)
      user_alpha[torch.isinf(user_alpha)] = 0.0   # and the other three
      row, col, value = sparse_nonzero(M)
      self.M_alpha_beta = SparseTensor(row=row, col=col,
          value=user_alpha[row] * item_beta[col] * value, sparse_sizes=(M.size(0), M.size(1)))
      self.M_gamma_delta = SparseTensor(row=row, col=col,
          value=user_gamma[row] * item_delta[col] * value, sparse_sizes=(M.size(0), M.size(1)))
  \<close>
  A tensor compared with \<open>None\<close> is not equal to it, so cached degrees are kept. Indexing a
  degree vector outside \<open>[-length, length)\<close> raises IndexError; a \<open>None\<close> item degree raises
  TypeError.
\<close>

definition fit :: "LinkPropMulti \<Rightarrow> SparseTensor \<Rightarrow> error + LinkPropMulti" where
  "fit s M =
     (let s1 = s\<lparr>M_alpha_beta := None, M_gamma_delta := None\<rparr>;
          s2 = (if user_degrees s1 = None
                then s1\<lparr>user_degrees := Some (sum_dim1 M), item_degrees := Some (sum_dim0 M)\<rparr>
                else s1)
      in case user_degrees s2 of
           None \<Rightarrow> Inl TypeError
         | Some ud \<Rightarrow>
             (case item_degrees s2 of
                None \<Rightarrow> Inl TypeError
              | Some idg \<Rightarrow>
                  let user_alpha = map (\<lambda>d. neg_pow d (lp_alpha s2)) ud;
                      item_beta = map (\<lambda>d. neg_pow d (lp_beta s2)) idg;
                      user_gamma = map (\<lambda>d. neg_pow d (lp_gamma s2)) ud;
                      item_delta = map (\<lambda>d. neg_pow d (lp_delta s2)) idg;
                      nz = sparse_nonzero M
                  in if \<exists>e \<in> set nz. e_row e < - int (length ud) \<or> int (length ud) \<le> e_row e \<or>
                                      e_col e < - int (length idg) \<or> int (length idg) \<le> e_col e
                     then Inl IndexError
                     else Inr (s2\<lparr>M_alpha_beta :=
                                     Some (mk_sparse (nrows M) (ncols M)
                                             (reweight user_alpha item_beta nz)),
                                   M_gamma_delta :=
                                     Some (mk_sparse (nrows M) (ncols M)
                                             (reweight user_gamma item_delta nz))\<rparr>)))"

text \<open>
  \<^verbatim>\<open>
  def get_preds_for_users(self, start, end):
      return matmul(matmul(self.M_alpha_beta[start:end], M.t()), self.M_gamma_delta)
  \<close>
  \<open>M\<close> is neither a parameter nor a field here: it is the module-level matrix bound by
  \<open>M, src, dest, src_map, dest_map = load_data()\<close>. The model passes it as \<open>G\<close>.
\<close>

definition get_preds_for_users ::
  "LinkPropMulti \<Rightarrow> SparseTensor \<Rightarrow> nat \<Rightarrow> nat \<Rightarrow> error + SparseTensor" where
  "get_preds_for_users s G start stop =
     (case M_alpha_beta s of
        None \<Rightarrow> Inl TypeError
      | Some ab \<Rightarrow>
          (case slice_rows ab start stop of
             Inl e \<Rightarrow> Inl e
           | Inr a \<Rightarrow>
               (case matmul a (transpose_sparse G) of
                  Inl e \<Rightarrow> Inl e
                | Inr p \<Rightarrow>
                    (case M_gamma_delta s of
                       None \<Rightarrow> Inl AttributeError
                     | Some gd \<Rightarrow> matmul p gd))))"

text \<open>
  \<^verbatim>\<open>
  def predict_topk(self, M, start, end, k):
      user_pred = self.get_preds_for_users(start, end).to_dense()
      user_pred = (user_pred - (M[start:end].to_dense() == 1).float() * 100000).clamp(min=0)
      user_pred = user_pred.topk(k, dim=1)
      return [user_pred.indices[i, user_pred.values[i] > 0].to("cpu").long().numpy()
              for i in range(user_pred.values.size(0))]
  \<close>
\<close>

definition masked_scores :: "DenseTensor \<Rightarrow> DenseTensor \<Rightarrow> nat \<Rightarrow> nat \<Rightarrow> real" where
  "masked_scores user_pred observed r c =
     max 0 (bat user_pred r c - (if bat observed r c = 1 then 1 else 0) * 100000)"

definition predict_topk ::
  "LinkPropMulti \<Rightarrow> SparseTensor \<Rightarrow> SparseTensor \<Rightarrow> nat \<Rightarrow> nat \<Rightarrow> int \<Rightarrow> error + nat list list"
  where
  "predict_topk s G M start stop k =
     (case get_preds_for_users s G start stop of
        Inl e \<Rightarrow> Inl e
      | Inr sp \<Rightarrow>
          (case slice_rows M start stop of
             Inl e \<Rightarrow> Inl e
           | Inr mb \<Rightarrow>
               let user_pred = to_dense sp; observed = to_dense mb
               in (case broadcast (drows user_pred) (drows observed) of
                     None \<Rightarrow> Inl RuntimeError
                   | Some b \<Rightarrow>
                       (case broadcast (dcols user_pred) (dcols observed) of
                          None \<Rightarrow> Inl RuntimeError
                        | Some n \<Rightarrow>
                            if k < 0 \<or> int n < k then Inl RuntimeError
                            else Inr (map (\<lambda>r. map snd
                                              (filter (\<lambda>vp. fst vp > 0)
                                                 (topk_row (nat k)
                                                    (map (masked_scores user_pred observed r)
                                                       [0..<n]))))
                                        [0..<b])))))"

text \<open>\<open>range(0, total, batch_size)\<close> for a positive step.\<close>

definition range_starts :: "nat \<Rightarrow> nat \<Rightarrow> nat list" where
  "range_starts tot batch_size =
     map (\<lambda>q. q * batch_size) [0..<(tot + batch_size - 1) div batch_size]"

text \<open>
  \<^verbatim>\<open>
  def fit_multi(self, M, batch_size=600, total=1000):
      self.fit(M)
      for i in range(self.rounds - 1):
          M_new = M.clone()
          for start in range(0, total, batch_size):
              end = min(start + batch_size, total)
              number_of_links = M[start:end].to_dense().sum()
              k = math.ceil(number_of_links * self.t / (end - start))
              predicted_new_link_indices = self.predict_topk(M, start, end, k)
              indices = np.array([])
              for i, row in enumerate(predicted_new_link_indices):
                  indices = np.concatenate(
                      (indices, list(zip([start + i] * len(row), row))), axis=None)
              indices = indices.reshape(-1, 2)
              row, col, value = M_new.coo()
              M_new = SparseTensor(
                  row=cat(row, indices.T[0]), col=cat(col, indices.T[1]),
                  value=cat(value, torch.ones(len(indices))),
                  sparse_sizes=(M.size(0), M.size(1))).coalesce("max")
          self.user_degrees = M_new.sum(dim=1)
          self.item_degrees = M_new.sum(dim=0)
          self.fit(M)
  \<close>
  \<open>range\<close> refuses a zero step with ValueError.
\<close>

definition link_indices :: "nat \<Rightarrow> nat list list \<Rightarrow> (nat \<times> nat) list" where
  "link_indices start predicted =
     concat (map (\<lambda>(i, row). map (\<lambda>c. (start + i, c)) row) (enumerate 0 predicted))"

definition merge_links :: "SparseTensor \<Rightarrow> SparseTensor \<Rightarrow> (nat \<times> nat) list \<Rightarrow> SparseTensor" where
  "merge_links M M_new indices =
     coalesce ReduceMax
       (mk_sparse (nrows M) (ncols M)
          (entries M_new @ map (\<lambda>rc. (int (fst rc), int (snd rc), 1)) indices))"

definition batch_k :: "LinkPropMulti \<Rightarrow> SparseTensor \<Rightarrow> nat \<Rightarrow> nat \<Rightarrow> int" where
  "batch_k s mb start stop =
     (let number_of_links = dense_sum (to_dense mb)
      in \<lceil>number_of_links * lp_t s / real (stop - start)\<rceil>)"

fun sweep ::
  "LinkPropMulti \<Rightarrow> SparseTensor \<Rightarrow> SparseTensor \<Rightarrow> nat \<Rightarrow> nat \<Rightarrow> nat list \<Rightarrow> SparseTensor
     \<Rightarrow> error + SparseTensor" where
  "sweep s G M batch_size tot [] M_new = Inr M_new"
| "sweep s G M batch_size tot (start # starts) M_new =
     (let stop = min (start + batch_size) tot
      in case slice_rows M start stop of
           Inl e \<Rightarrow> Inl e
         | Inr mb \<Rightarrow>
             (case predict_topk s G M start stop (batch_k s mb start stop) of
                Inl e \<Rightarrow> Inl e
              | Inr predicted \<Rightarrow>
                  sweep s G M batch_size tot starts
                    (merge_links M M_new (link_indices start predicted))))"

fun fit_rounds ::
  "nat \<Rightarrow> LinkPropMulti \<Rightarrow> SparseTensor \<Rightarrow> SparseTensor \<Rightarrow> nat \<Rightarrow> nat \<Rightarrow> error + LinkPropMulti"
  where
  "fit_rounds 0 s G M batch_size tot = Inr s"
| "fit_rounds (Suc n) s G M batch_size tot =
     (if batch_size = 0 then Inl ValueError
      else case sweep s G M batch_size tot (range_starts tot batch_size) M of
             Inl e \<Rightarrow> Inl e
           | Inr M_new \<Rightarrow>
               (case fit (s\<lparr>user_degrees := Some (sum_dim1 M_new),
                             item_degrees := Some (sum_dim0 M_new)\<rparr>) M of
                  Inl e \<Rightarrow> Inl e
                | Inr s' \<Rightarrow> fit_rounds n s' G M batch_size tot))"

definition fit_multi ::
  "LinkPropMulti \<Rightarrow> SparseTensor \<Rightarrow> SparseTensor \<Rightarrow> nat \<Rightarrow> nat \<Rightarrow> error + LinkPropMulti" where
  "fit_multi s G M batch_size tot =
     (case fit s M of
        Inl e \<Rightarrow> Inl e
      | Inr s1 \<Rightarrow> fit_rounds (nat (lp_rounds s1 - 1)) s1 G M batch_size tot)"

text \<open>
  \<^verbatim>\<open>
  def predict(self, X, batch_size=600):
      user_topk = np.array([], dtype=object)
      for start in tqdm(range(0, X.size(0), batch_size)):
          end = min(start + batch_size, X.size(0))
          user_pred = self.predict_topk(X, start, end, self.k)
          user_topk = np.concatenate((user_topk, user_pred), dtype=object)
      return user_topk
  \<close>
\<close>

fun predict_batches ::
  "LinkPropMulti \<Rightarrow> SparseTensor \<Rightarrow> SparseTensor \<Rightarrow> nat \<Rightarrow> nat list \<Rightarrow> nat list list
     \<Rightarrow> error + nat list list" where
  "predict_batches s G X batch_size [] user_topk = Inr user_topk"
| "predict_batches s G X batch_size (start # starts) user_topk =
     (case predict_topk s G X start (min (start + batch_size) (nrows X)) (lp_k s) of
        Inl e \<Rightarrow> Inl e
      | Inr user_pred \<Rightarrow> predict_batches s G X batch_size starts (user_topk @ user_pred))"

definition predict :: "LinkPropMulti \<Rightarrow> SparseTensor \<Rightarrow> SparseTensor \<Rightarrow> nat \<Rightarrow> error + nat list list"
  where
  "predict s G X batch_size =
     (if batch_size = 0 then Inl ValueError
      else predict_batches s G X batch_size (range_starts (nrows X) batch_size) [])"

text \<open>The stored triplets of a coalesced tensor built from a list of triplets.\<close>

definition built :: "reduce \<Rightarrow> nat \<Rightarrow> entry list \<Rightarrow> entry list" where
  "built rd N xs = coalesce_list rd N (drop_head N (- 1) (sort_key (idx N) xs))"

text \<open>
  The (row, col) pairs that one augmentation round predicts: the pairs that \<open>predict_topk\<close>
  returns for some batch of the sweep, the row counted from the start of the whole matrix.
\<close>

definition predicted_in_batch ::
  "LinkPropMulti \<Rightarrow> SparseTensor \<Rightarrow> SparseTensor \<Rightarrow> nat \<Rightarrow> nat \<Rightarrow> nat \<Rightarrow> nat \<Rightarrow> nat \<Rightarrow> bool"
  where
  "predicted_in_batch s G M batch_size tot start i j =
     (let stop = min (start + batch_size) tot
      in case slice_rows M start stop of
           Inl e \<Rightarrow> False
         | Inr mb \<Rightarrow>
             (case predict_topk s G M start stop (batch_k s mb start stop) of
                Inl e \<Rightarrow> False
              | Inr predicted \<Rightarrow>
                  start \<le> i \<and> i - start < length predicted \<and> j \<in> set (predicted ! (i - start))))"

definition predicted_pair ::
  "LinkPropMulti \<Rightarrow> SparseTensor \<Rightarrow> SparseTensor \<Rightarrow> nat \<Rightarrow> nat \<Rightarrow> nat \<Rightarrow> nat \<Rightarrow> bool" where
  "predicted_pair s G M batch_size tot i j =
     (\<exists>start \<in> set (range_starts tot batch_size).
        predicted_in_batch s G M batch_size tot start i j)"

section \<open>Example values\<close>

definition M_ex :: SparseTensor where
  "M_ex = \<lparr>nrows = 2, ncols = 3, entries = [(0, 1, 1), (1, 2, 1)]\<rparr>"

text \<open>The binary32 number nearest to 1/10.\<close>

definition tenth32 :: real where
  "tenth32 = 13421773 / 134217728"

definition T_half :: SparseTensor where
  "T_half = \<lparr>nrows = 1, ncols = 1, entries = [(0, 0, 1 / 2)]\<rparr>"

text \<open>A row of degree above 1 that stores the binary32 number \<open>2 ^ 25 + 4\<close>.\<close>

definition T_big :: SparseTensor where
  "T_big = \<lparr>nrows = 1, ncols = 2, entries = [(0, 0, 33554436), (0, 1, 1)]\<rparr>"

definition lp_ex :: LinkPropMulti where
  "lp_ex = init 0 0 0 0 1 (1 / 20) 12"

text \<open>
  A predictor whose two propagation matrices are present and have the shape of \<open>M\<close>, as
  \<open>fit(M)\<close> leaves it.
\<close>

definition fitted_on :: "LinkPropMulti \<Rightarrow> SparseTensor \<Rightarrow> bool" where
  "fitted_on s M =
     (case M_alpha_beta s of
        None \<Rightarrow> False
      | Some ab \<Rightarrow>
          (case M_gamma_delta s of
             None \<Rightarrow> False
           | Some gd \<Rightarrow> nrows ab = nrows M \<and> ncols ab = ncols M \<and>
                        nrows gd = nrows M \<and> ncols gd = ncols M))"

text \<open>
  The 4 x 3 scenario of the specification with all exponents 0, its state after \<open>fit\<close>, and
  its working copy after one sweep with batch size 2 and \<open>t = 1/2\<close>.
\<close>

definition M_scn :: SparseTensor where
  "M_scn = \<lparr>nrows = 4, ncols = 3, entries = [(0,0,1),(0,1,1),(1,2,1),(2,0,1),(2,1,1),(2,2,1)]\<rparr>"

definition s_scn :: LinkPropMulti where
  "s_scn = (init 0 0 0 0 2 (1/2) 2)\<lparr>user_degrees := Some [2,1,3,0], item_degrees := Some [2,2,2],
     M_alpha_beta := Some M_scn, M_gamma_delta := Some M_scn\<rparr>"

definition M_scn_new :: SparseTensor where
  "M_scn_new = \<lparr>nrows = 4, ncols = 3,
        entries =
          [(0, 0, 1), (0, 1, 1), (0, 2, 1), (1, 0, 1), (1, 2, 1), (2, 0, 1),
           (2, 1, 1), (2, 2, 1)]\<rparr>"

text \<open>A weighted matrix whose observed cell (0, 0) scores above the sentinel 100000.\<close>

definition X_heavy :: SparseTensor where
  "X_heavy = \<lparr>nrows = 2, ncols = 2, entries = [(0,0,1),(0,1,300),(1,0,300)]\<rparr>"

definition s_heavy :: LinkPropMulti where
  "s_heavy = (init 0 0 0 0 1 (1/20) 2)\<lparr>user_degrees := Some [301,300], item_degrees := Some [301,300],
     M_alpha_beta := Some X_heavy, M_gamma_delta := Some X_heavy\<rparr>"

text \<open>A matrix passed to \<open>fit\<close> and a different module-level matrix.\<close>

definition X_id :: SparseTensor where
  "X_id = \<lparr>nrows = 2, ncols = 2, entries = [(0,0,1),(1,1,1)]\<rparr>"

definition G_ones :: SparseTensor where
  "G_ones = \<lparr>nrows = 2, ncols = 2, entries = [(0,0,1),(0,1,1),(1,0,1),(1,1,1)]\<rparr>"

definition s_id :: LinkPropMulti where
  "s_id = (init 0 0 0 0 1 (1/20) 2)\<lparr>user_degrees := Some [1,1], item_degrees := Some [1,1],
     M_alpha_beta := Some X_id, M_gamma_delta := Some X_id\<rparr>"

text \<open>A 1 x 1 matrix and a predictor with two rounds and \<open>t = 2\<close>.\<close>

definition M_one :: SparseTensor where
  "M_one = \<lparr>nrows = 1, ncols = 1, entries = [(0, 0, 1)]\<rparr>"

definition s_one :: LinkPropMulti where
  "s_one = (init 0 0 0 0 2 2 12)\<lparr>user_degrees := Some [1], item_degrees := Some [1],
     M_alpha_beta := Some M_one, M_gamma_delta := Some M_one\<rparr>"

section \<open>Properties of the sparse primitives\<close>

lemma fl32_zero [simp]: "fl32 0 = 0"
  by (simp add: fl32_def)

lemma e_simps [simp]: "e_row (r, c, v) = r" "e_col (r, c, v) = c" "e_val (r, c, v) = v"
  by (simp_all add: e_row_def e_col_def e_val_def)

lemma entry_eta [simp]: "(e_row e, e_col e, e_val e) = e"
  by (simp add: e_row_def e_col_def e_val_def)

lemma idx_merged [simp]: "idx N (e_row e, e_col e, v) = idx N e"
  by (simp add: idx_def)

lemma coord_merged [simp]: "coord (e_row e, e_col e, v) = coord e"
  by (simp add: coord_def)

lemma key_unique:
  fixes a b c d n :: int
  assumes "0 \<le> b" "b < n" "0 \<le> d" "d < n" "a * n + b = c * n + d"
  shows "a = c \<and> b = d"
proof -
  have "(a * n + b) div n = a" using assms(1,2) by simp
  moreover have "(c * n + d) div n = c" using assms(3,4) by simp
  ultimately have "a = c" using assms(5) by simp
  with assms(5) show ?thesis by simp
qed

lemma idx_eq_iff:
  assumes "0 \<le> e_col e" "e_col e < int N" "0 \<le> j" "j < int N"
  shows "idx N e = i * int N + j \<longleftrightarrow> coord e = (i, j)"
proof
  assume h: "idx N e = i * int N + j"
  then have "e_row e * int N + e_col e = i * int N + j" by (simp add: idx_def)
  from key_unique[OF assms(1,2,3,4) this] show "coord e = (i, j)" by (simp add: coord_def)
next
  assume "coord e = (i, j)"
  then show "idx N e = i * int N + j" by (simp add: coord_def idx_def)
qed

lemma coalesce_list_coord:
  "e \<in> set (coalesce_list rd N es) \<Longrightarrow> \<exists>e' \<in> set es. coord e = coord e'"
proof (induction rd N es arbitrary: e rule: coalesce_list.induct)
  case (3 rd N a b es)
  show ?case
  proof (cases "idx N a < idx N b")
    case True
    with 3(3) have "e = a \<or> e \<in> set (coalesce_list rd N (b # es))" by simp
    then show ?thesis
    proof
      assume "e = a" then show ?thesis by simp
    next
      assume "e \<in> set (coalesce_list rd N (b # es))"
      from 3(1)[OF True this] show ?thesis by (meson list.set_intros(2))
    qed
  next
    case False
    with 3(3) have "e \<in> set (coalesce_list rd N ((e_row a, e_col a, reduce_op rd (e_val a) (e_val b)) # es))"
      by simp
    from 3(2)[OF False this] obtain e' where
      e': "e' \<in> set ((e_row a, e_col a, reduce_op rd (e_val a) (e_val b)) # es)" "coord e = coord e'"
      by blast
    show ?thesis
    proof (cases "e' \<in> set es")
      case True with e' show ?thesis by (meson list.set_intros)
    next
      case False
      with e' have "coord e = coord a" by simp
      then show ?thesis by (meson list.set_intros(1))
    qed
  qed
qed auto

lemma coalesce_list_idx:
  "e \<in> set (coalesce_list rd N es) \<Longrightarrow> \<exists>e' \<in> set es. idx N e = idx N e'"
proof -
  assume "e \<in> set (coalesce_list rd N es)"
  then obtain e' where "e' \<in> set es" "coord e = coord e'"
    using coalesce_list_coord by blast
  then have "idx N e = idx N e'" by (simp add: coord_def idx_def)
  with \<open>e' \<in> set es\<close> show ?thesis by blast
qed

lemma coalesce_list_sorted:
  "sorted (map (idx N) es) \<Longrightarrow> sorted_wrt (<) (map (idx N) (coalesce_list rd N es))"
proof (induction rd N es rule: coalesce_list.induct)
  case (3 rd N a b es)
  show ?case
  proof (cases "idx N a < idx N b")
    case True
    have "\<forall>x \<in> set (coalesce_list rd N (b # es)). idx N a < idx N x"
    proof
      fix x assume "x \<in> set (coalesce_list rd N (b # es))"
      then obtain y where "y \<in> set (b # es)" "idx N x = idx N y"
        using coalesce_list_idx by blast
      with 3(3) True show "idx N a < idx N x" by auto
    qed
    with 3 True show ?thesis by simp
  next
    case False
    with 3(2)[OF False] 3(3) show ?thesis by simp
  qed
qed auto

lemma coalesce_list_filter:
  "sorted (map (idx N) es) \<Longrightarrow>
   filter (\<lambda>x. idx N x = q) (coalesce_list rd N es) =
     (case filter (\<lambda>x. idx N x = q) es of
        [] \<Rightarrow> []
      | e # rest \<Rightarrow> [(e_row e, e_col e, foldl (reduce_op rd) (e_val e) (map e_val rest))])"
proof (induction rd N es rule: coalesce_list.induct)
  case (3 rd N a b es)
  show ?case
  proof (cases "idx N a < idx N b")
    case True
    have ih: "filter (\<lambda>x. idx N x = q) (coalesce_list rd N (b # es)) =
     (case filter (\<lambda>x. idx N x = q) (b # es) of
        [] \<Rightarrow> []
      | e # rest \<Rightarrow> [(e_row e, e_col e, foldl (reduce_op rd) (e_val e) (map e_val rest))])"
      using 3(1)[OF True] 3(3) by simp
    show ?thesis
    proof (cases "idx N a = q")
      case eq: True
      have "filter (\<lambda>x. idx N x = q) (b # es) = []"
        using 3(3) True eq by (auto simp: filter_empty_conv)
      with ih eq True show ?thesis by simp
    next
      case False
      with ih True show ?thesis by simp
    qed
  next
    case False
    then have eq: "idx N a = idx N b" using 3(3) by simp
    have ih: "filter (\<lambda>x. idx N x = q)
        (coalesce_list rd N ((e_row a, e_col a, reduce_op rd (e_val a) (e_val b)) # es)) =
     (case filter (\<lambda>x. idx N x = q) ((e_row a, e_col a, reduce_op rd (e_val a) (e_val b)) # es) of
        [] \<Rightarrow> []
      | e # rest \<Rightarrow> [(e_row e, e_col e, foldl (reduce_op rd) (e_val e) (map e_val rest))])"
      using 3(2)[OF False] 3(3) by simp
    show ?thesis using ih False eq by simp
  qed
qed auto

text \<open>Nothing is dropped in front of a first key above \<open>prev\<close>; what is kept is a suffix.\<close>

lemma drop_head_keep:
  "xs = [] \<or> prev < idx N (hd xs) \<Longrightarrow> drop_head N prev xs = xs"
  by (cases xs) auto

lemma drop_head_nonneg:
  "\<forall>e \<in> set xs. 0 \<le> idx N e \<Longrightarrow> drop_head N (- 1) xs = xs"
  by (cases xs) auto

lemma drop_head_suffix: "\<exists>ys. xs = ys @ drop_head N prev xs"
proof (induction xs arbitrary: prev)
  case (Cons a xs)
  show ?case
  proof (cases "prev < idx N a")
    case True
    then show ?thesis by simp
  next
    case False
    from Cons[of "idx N a"] obtain ys where "xs = ys @ drop_head N (idx N a) xs" by blast
    then have "a # xs = (a # ys) @ drop_head N prev (a # xs)" using False by simp
    then show ?thesis by blast
  qed
qed simp

lemma drop_head_set: "set (drop_head N prev xs) \<subseteq> set xs"
proof -
  obtain ys where "xs = ys @ drop_head N prev xs" using drop_head_suffix by blast
  then have "set xs = set ys \<union> set (drop_head N prev xs)" by (metis set_append)
  then show ?thesis by blast
qed

lemma drop_head_sorted:
  "sorted (map f xs) \<Longrightarrow> sorted (map f (drop_head N prev xs))"
proof -
  assume s: "sorted (map f xs)"
  obtain ys where y: "xs = ys @ drop_head N prev xs" using drop_head_suffix by blast
  have "sorted (map f (ys @ drop_head N prev xs))" using s y by simp
  then show ?thesis by (simp add: sorted_append)
qed

lemma filter_coord_idx:
  assumes "\<forall>e \<in> set xs. 0 \<le> e_col e \<and> e_col e < int N" "0 \<le> j" "j < int N"
  shows "filter (\<lambda>e. coord e = (i, j)) xs = filter (\<lambda>e. idx N e = i * int N + j) xs"
  using assms by (intro filter_cong) (auto simp: idx_eq_iff)

lemma filter_coord_out:
  assumes "\<forall>e \<in> set xs. 0 \<le> e_col e \<and> e_col e < int N" "\<not> (0 \<le> j \<and> j < int N)"
  shows "filter (\<lambda>e. coord e = (i, j)) xs = []"
  using assms by (auto simp: filter_empty_conv coord_def)

lemma coalesce_list_pres:
  assumes "\<forall>e \<in> set xs. Q (coord e)"
  shows "\<forall>e \<in> set (coalesce_list rd N xs). Q (coord e)"
proof
  fix e assume "e \<in> set (coalesce_list rd N xs)"
  then obtain e' where "e' \<in> set xs" "coord e = coord e'"
    using coalesce_list_coord by blast
  with assms show "Q (coord e)" by auto
qed

lemma entries_coalesce_mk [simp]:
  "entries (coalesce rd (mk_sparse K N xs)) = built rd N xs"
  "nrows (coalesce rd (mk_sparse K N xs)) = K"
  "ncols (coalesce rd (mk_sparse K N xs)) = N"
  by (simp_all add: coalesce_def mk_sparse_def built_def)

lemma built_strict: "sorted_wrt (<) (map (idx N) (built rd N xs))"
  unfolding built_def by (rule coalesce_list_sorted) (simp add: drop_head_sorted)

lemma built_pres:
  assumes "\<forall>e \<in> set xs. Q (coord e)"
  shows "\<forall>e \<in> set (built rd N xs). Q (coord e)"
proof -
  have "\<forall>e \<in> set (drop_head N (- 1) (sort_key (idx N) xs)). Q (coord e)"
    using assms drop_head_set[of N "- 1" "sort_key (idx N) xs"] by auto
  then show ?thesis unfolding built_def by (rule coalesce_list_pres)
qed

lemma built_cols:
  assumes "\<forall>e \<in> set xs. 0 \<le> e_col e \<and> e_col e < int N"
  shows "\<forall>e \<in> set (built rd N xs). 0 \<le> e_col e \<and> e_col e < int N"
  using built_pres[of xs "\<lambda>p. 0 \<le> snd p \<and> snd p < int N" rd N] assms
  by (simp add: coord_def)

lemma built_rows:
  assumes "\<forall>e \<in> set xs. 0 \<le> e_row e \<and> e_row e < int K"
  shows "\<forall>e \<in> set (built rd N xs). 0 \<le> e_row e \<and> e_row e < int K"
  using built_pres[of xs "\<lambda>p. 0 \<le> fst p \<and> fst p < int K" rd N] assms
  by (simp add: coord_def)

lemma idx_nonneg: "0 \<le> e_row e \<Longrightarrow> 0 \<le> e_col e \<Longrightarrow> 0 \<le> idx N e"
  by (simp add: idx_def)

lemma built_filter_idx:
  assumes "\<forall>e \<in> set xs. 0 \<le> idx N e"
  shows "filter (\<lambda>x. idx N x = q) (built rd N xs) =
     (case filter (\<lambda>x. idx N x = q) xs of
        [] \<Rightarrow> []
      | e # rest \<Rightarrow> [(e_row e, e_col e, foldl (reduce_op rd) (e_val e) (map e_val rest))])"
proof -
  have "drop_head N (- 1) (sort_key (idx N) xs) = sort_key (idx N) xs"
    using assms by (intro drop_head_nonneg) simp
  then show ?thesis
    unfolding built_def
    by (simp add: coalesce_list_filter sort_key_stable)
qed

lemma built_filter_coord:
  assumes "\<forall>e \<in> set xs. 0 \<le> e_row e \<and> 0 \<le> e_col e \<and> e_col e < int N"
  shows "filter (\<lambda>x. coord x = (i, j)) (built rd N xs) =
     (case filter (\<lambda>x. coord x = (i, j)) xs of
        [] \<Rightarrow> []
      | e # rest \<Rightarrow> [(i, j, foldl (reduce_op rd) (e_val e) (map e_val rest))])"
proof (cases "0 \<le> j \<and> j < int N")
  case True
  have cx: "\<forall>e \<in> set xs. 0 \<le> e_col e \<and> e_col e < int N" using assms by blast
  have nn: "\<forall>e \<in> set xs. 0 \<le> idx N e" using assms by (simp add: idx_nonneg)
  have c: "\<forall>e \<in> set (built rd N xs). 0 \<le> e_col e \<and> e_col e < int N"
    using cx by (rule built_cols)
  have "filter (\<lambda>x. coord x = (i, j)) (built rd N xs) =
        filter (\<lambda>x. idx N x = i * int N + j) (built rd N xs)"
    using c True by (intro filter_coord_idx) simp_all
  also have "\<dots> = (case filter (\<lambda>x. idx N x = i * int N + j) xs of
        [] \<Rightarrow> []
      | e # rest \<Rightarrow> [(e_row e, e_col e, foldl (reduce_op rd) (e_val e) (map e_val rest))])"
    using nn by (rule built_filter_idx)
  also have "filter (\<lambda>x. idx N x = i * int N + j) xs = filter (\<lambda>x. coord x = (i, j)) xs"
    using cx True by (intro filter_coord_idx[symmetric]) simp_all
  finally have *: "filter (\<lambda>x. coord x = (i, j)) (built rd N xs) =
     (case filter (\<lambda>x. coord x = (i, j)) xs of
        [] \<Rightarrow> []
      | e # rest \<Rightarrow> [(e_row e, e_col e, foldl (reduce_op rd) (e_val e) (map e_val rest))])" .
  show ?thesis
  proof (cases "filter (\<lambda>x. coord x = (i, j)) xs")
    case Nil
    with * show ?thesis by simp
  next
    case (Cons e rest)
    then have "e \<in> set (filter (\<lambda>x. coord x = (i, j)) xs)" by simp
    then have "coord e = (i, j)" by simp
    then have "e_row e = i" "e_col e = j" by (simp_all add: coord_def)
    with * Cons show ?thesis by simp
  qed
next
  case False
  have cx: "\<forall>e \<in> set xs. 0 \<le> e_col e \<and> e_col e < int N" using assms by blast
  have c: "\<forall>e \<in> set (built rd N xs). 0 \<le> e_col e \<and> e_col e < int N"
    using cx by (rule built_cols)
  show ?thesis
    using filter_coord_out[OF c False] filter_coord_out[OF cx False] by simp
qed

text \<open>With no negative id stored, \<open>to_dense\<close> reads a cell from the triplets of its coordinate.\<close>

lemma cell_coord:
  assumes "\<forall>e \<in> set (entries m). 0 \<le> e_row e \<and> 0 \<le> e_col e"
  shows "cell m i j =
     (case filter (\<lambda>e. coord e = (int i, int j)) (entries m) of
        [] \<Rightarrow> 0
      | e # es \<Rightarrow> e_val (last (e # es)))"
proof -
  have "filter (\<lambda>e. wrap_index (nrows m) (e_row e) = int i \<and>
                     wrap_index (ncols m) (e_col e) = int j) (entries m) =
        filter (\<lambda>e. coord e = (int i, int j)) (entries m)"
    using assms by (intro filter_cong) (auto simp: wrap_index_def coord_def)
  then show ?thesis by (simp add: cell_def)
qed

lemma built_cell:
  assumes "\<forall>e \<in> set xs. 0 \<le> e_row e \<and> 0 \<le> e_col e \<and> e_col e < int N"
  shows "cell (coalesce rd (mk_sparse K N xs)) i j =
     (case filter (\<lambda>x. coord x = (int i, int j)) xs of
        [] \<Rightarrow> 0
      | e # rest \<Rightarrow> foldl (reduce_op rd) (e_val e) (map e_val rest))"
proof -
  have nn: "\<forall>e \<in> set (entries (coalesce rd (mk_sparse K N xs))). 0 \<le> e_row e \<and> 0 \<le> e_col e"
    using built_pres[of xs "\<lambda>p. 0 \<le> fst p \<and> 0 \<le> snd p" rd N] assms
    by (simp add: coord_def)
  show ?thesis
    unfolding cell_coord[OF nn]
    by (simp add: built_filter_coord[OF assms] split: list.splits)
qed

lemma strict_idx_distinct_coord:
  assumes "sorted_wrt (<) (map (idx N) xs)"
  shows "distinct (map coord xs)"
proof -
  have d: "distinct (map (idx N) xs)" using assms strict_sorted_iff by blast
  have "map (idx N) xs = map (\<lambda>p. fst p * int N + snd p) (map coord xs)"
    by (simp add: idx_def coord_def)
  with d show ?thesis by (metis distinct_map)
qed

lemma built_no_dups: "no_dups (coalesce rd (mk_sparse K N xs))"
  unfolding no_dups_def by (simp add: strict_idx_distinct_coord[OF built_strict])

lemma built_in_bounds:
  assumes "\<forall>e \<in> set xs. 0 \<le> e_row e \<and> e_row e < int K \<and> 0 \<le> e_col e \<and> e_col e < int N"
  shows "in_bounds (coalesce rd (mk_sparse K N xs))"
  unfolding in_bounds_def using built_rows[of xs K rd N] built_cols[of xs N rd] assms by simp

lemma distinct_map_filter:
  "distinct (map f xs) \<Longrightarrow> filter (\<lambda>x. f x = q) xs = [] \<or> (\<exists>x. filter (\<lambda>x. f x = q) xs = [x])"
proof (induction xs)
  case (Cons a xs)
  show ?case
  proof (cases "f a = q")
    case True
    with Cons.prems have "f a \<notin> f ` set xs" by simp
    then have "\<forall>x \<in> set xs. f x \<noteq> q" using True by blast
    then have "filter (\<lambda>x. f x = q) xs = []"
      by (simp add: filter_empty_conv)
    with True show ?thesis by simp
  next
    case False
    with Cons show ?thesis by simp
  qed
qed simp

lemma strict_filter_unique:
  fixes f :: "'a \<Rightarrow> int"
  assumes "sorted_wrt (<) (map f xs)" "sorted_wrt (<) (map f ys)"
    and "\<And>q. filter (\<lambda>x. f x = q) xs = filter (\<lambda>x. f x = q) ys"
  shows "xs = ys"
proof -
  have s: "set xs = set ys"
  proof -
    have "\<And>x. x \<in> set xs \<longleftrightarrow> x \<in> set ys"
    proof -
      fix x
      have "x \<in> set xs \<longleftrightarrow> x \<in> set (filter (\<lambda>y. f y = f x) xs)" by simp
      also have "\<dots> \<longleftrightarrow> x \<in> set (filter (\<lambda>y. f y = f x) ys)" by (simp only: assms(3))
      also have "\<dots> \<longleftrightarrow> x \<in> set ys" by simp
      finally show "x \<in> set xs \<longleftrightarrow> x \<in> set ys" .
    qed
    then show ?thesis by blast
  qed
  have dx: "sorted (map f xs)" "distinct (map f xs)" using assms(1) strict_sorted_iff by blast+
  have dy: "sorted (map f ys)" "distinct (map f ys)" using assms(2) strict_sorted_iff by blast+
  have "set (map f xs) = set (map f ys)" using s by simp
  then have m: "map f xs = map f ys"
    using dx dy sorted_distinct_set_unique by blast
  have "inj_on f (set xs \<union> set ys)" using dx(2) s by (simp add: distinct_map)
  then show ?thesis using m by (simp add: inj_on_map_eq_map)
qed

lemma select_cell_total:
  assumes "- int (nrows m) \<le> i" "i < int (nrows m)"
  shows "select_cell m i j =
     Inr (case filter (\<lambda>e. e_row e = (if i < 0 then int (nrows m) + i else i) \<and>
                            e_col e = (if j < 0 then int (ncols m) + j else j)) (entries m) of
            [] \<Rightarrow> 0
          | e # es \<Rightarrow> e_val (last (e # es)))"
  using assms by (simp add: select_cell_def Let_def)

lemma select_cell_cell:
  assumes "\<forall>e \<in> set (entries m). 0 \<le> e_row e \<and> 0 \<le> e_col e" "i < nrows m"
  shows "select_cell m (int i) (int j) = Inr (cell m i j)"
proof -
  have "filter (\<lambda>e. e_row e = int i \<and> e_col e = int j) (entries m) =
        filter (\<lambda>e. coord e = (int i, int j)) (entries m)"
    by (intro filter_cong) (auto simp: coord_def)
  then show ?thesis
    using select_cell_total[of m "int i" "int j"] assms(2) cell_coord[OF assms(1), of i j]
    by simp
qed

lemma sparse_assign_Inr:
  assumes "\<forall>e \<in> set (entries m). 0 \<le> e_row e \<and> 0 \<le> e_col e" "i < nrows m" "j < ncols m"
  shows "sparse_assign m (int i) (int j) v =
     Inr (coalesce ReduceAdd
            (mk_sparse (nrows m) (ncols m)
               (entries m @ [(int i, int j, fl32 (fl32 v - cell m i j))])))"
  using assms(2,3) select_cell_cell[OF assms(1,2), of j] by (simp add: sparse_assign_def)

lemma assigned_filter:
  assumes ib: "in_bounds m" and nd: "no_dups m" and j: "j < ncols m"
    and fv: "fl32 v = v" and ex: "fl32 (cell m i j + fl32 (v - cell m i j)) = v"
  shows "filter (\<lambda>x. coord x = (int i, int j))
           (built ReduceAdd (ncols m) (entries m @ [(int i, int j, fl32 (fl32 v - cell m i j))])) =
         [(int i, int j, v)]"
proof -
  let ?d = "fl32 (fl32 v - cell m i j)"
  let ?xs = "entries m @ [(int i, int j, ?d)]"
  let ?P = "\<lambda>x. coord x = (int i, int j)"
  have d: "?d = fl32 (v - cell m i j)" using fv by simp
  have nn: "\<forall>e \<in> set (entries m). 0 \<le> e_row e \<and> 0 \<le> e_col e"
    using ib by (auto simp: in_bounds_def)
  have cols: "\<forall>e \<in> set ?xs. 0 \<le> e_row e \<and> 0 \<le> e_col e \<and> e_col e < int (ncols m)"
    using ib j by (auto simp: in_bounds_def)
  have f: "filter ?P ?xs = filter ?P (entries m) @ [(int i, int j, ?d)]"
    by (simp add: coord_def)
  have b: "filter ?P (built ReduceAdd (ncols m) ?xs) =
     (case filter ?P ?xs of
        [] \<Rightarrow> []
      | e # rest \<Rightarrow> [(int i, int j, foldl (reduce_op ReduceAdd) (e_val e) (map e_val rest))])"
    using cols by (rule built_filter_coord)
  from nd have "filter ?P (entries m) = [] \<or> (\<exists>e. filter ?P (entries m) = [e])"
    unfolding no_dups_def by (rule distinct_map_filter)
  then show ?thesis
  proof
    assume e: "filter ?P (entries m) = []"
    then have c: "cell m i j = 0" by (simp add: cell_coord[OF nn])
    have "filter ?P ?xs = [(int i, int j, ?d)]" using e f by simp
    then show ?thesis using b c d fv by simp
  next
    assume "\<exists>e. filter ?P (entries m) = [e]"
    then obtain e where e: "filter ?P (entries m) = [e]" by blast
    then have c: "cell m i j = e_val e" by (simp add: cell_coord[OF nn])
    have "filter ?P ?xs = [e, (int i, int j, ?d)]" using e f by simp
    then show ?thesis using b c d ex by simp
  qed
qed

lemma reassign_same:
  assumes st: "sorted_wrt (<) (map (idx N) R)"
    and cols: "\<forall>e \<in> set R. 0 \<le> e_row e \<and> 0 \<le> e_col e \<and> e_col e < int N"
    and j: "0 \<le> j" "j < int N"
    and at: "filter (\<lambda>x. coord x = (i, j)) R = [(i, j, v)]"
    and fv: "fl32 v = v"
  shows "built ReduceAdd N (R @ [(i, j, 0)]) = R"
proof (rule strict_filter_unique[where f = "idx N"])
  show "sorted_wrt (<) (map (idx N) (built ReduceAdd N (R @ [(i, j, 0)])))"
    by (rule built_strict)
  show "sorted_wrt (<) (map (idx N) R)" by (rule st)
  fix q
  have d: "distinct (map (idx N) R)" using st strict_sorted_iff by blast
  have cj: "\<forall>e \<in> set R. 0 \<le> e_col e \<and> e_col e < int N" using cols by blast
  have at': "filter (\<lambda>x. idx N x = i * int N + j) R = [(i, j, v)]"
    using filter_coord_idx[OF cj j, of i] at by simp
  have "(i, j, v) \<in> set (filter (\<lambda>x. coord x = (i, j)) R)" using at by simp
  then have "(i, j, v) \<in> set R" by simp
  then have i0: "0 \<le> i" using cols by fastforce
  have nn: "\<forall>e \<in> set (R @ [(i, j, 0)]). 0 \<le> idx N e"
    using cols i0 j by (auto simp: idx_nonneg)
  note bf = built_filter_idx[OF nn]
  show "filter (\<lambda>x. idx N x = q) (built ReduceAdd N (R @ [(i, j, 0)])) =
        filter (\<lambda>x. idx N x = q) R"
  proof (cases "q = i * int N + j")
    case True
    have "filter (\<lambda>x. idx N x = q) (R @ [(i, j, 0)]) = [(i, j, v), (i, j, 0)]"
      using True at' by (simp add: idx_def)
    then show ?thesis using True at' fv by (simp add: bf)
  next
    case False
    have f: "filter (\<lambda>x. idx N x = q) (R @ [(i, j, 0)]) = filter (\<lambda>x. idx N x = q) R"
      using False by (auto simp: idx_def)
    from d have "filter (\<lambda>x. idx N x = q) R = [] \<or> (\<exists>e. filter (\<lambda>x. idx N x = q) R = [e])"
      by (rule distinct_map_filter)
    then show ?thesis using f by (auto simp: bf)
  qed
qed

section \<open>Single-cell assignment\<close>

text \<open>
  Claim C7, as the code has it. Let the matrix have no duplicate coordinates, the cell
  \<open>(i, j)\<close> lie inside its shape, \<open>v\<close> be a binary32 number, and let the binary32 sum of
  the value \<open>c\<close> of the cell and the binary32 difference \<open>v - c\<close> give back \<open>v\<close> (as it does
  when the cell is empty or holds \<open>v\<close>, and whenever \<open>v - c\<close> is itself a binary32 number).
  Then \<open>sparse_assign\<close> succeeds, the cell then reads \<open>v\<close> (in the dense matrix and through
  the indexed read of \<open>sparse_assign\<close> itself), assigning the same value again returns the
  very same tensor, and the result stores exactly one triplet for \<open>(i, j)\<close> and no
  coordinate twice.
\<close>

theorem sparse_assign_reads_back_idempotent:
  assumes "in_bounds m" and "no_dups m" and "i < nrows m" and "j < ncols m"
    and "fl32 v = v" and "fl32 (cell m i j + fl32 (v - cell m i j)) = v"
  shows "\<exists>m'. sparse_assign m (int i) (int j) v = Inr m' \<and> cell m' i j = v \<and>
              select_cell m' (int i) (int j) = Inr v \<and>
              sparse_assign m' (int i) (int j) v = Inr m' \<and> no_dups m' \<and>
              filter (\<lambda>e. coord e = (int i, int j)) (entries m') = [(int i, int j, v)]"
proof -
  let ?xs = "entries m @ [(int i, int j, fl32 (fl32 v - cell m i j))]"
  let ?m' = "coalesce ReduceAdd (mk_sparse (nrows m) (ncols m) ?xs)"
  have nn: "\<forall>e \<in> set (entries m). 0 \<le> e_row e \<and> 0 \<le> e_col e"
    using assms(1) by (auto simp: in_bounds_def)
  have bx: "\<forall>e \<in> set ?xs. 0 \<le> e_row e \<and> e_row e < int (nrows m) \<and>
                            0 \<le> e_col e \<and> e_col e < int (ncols m)"
    using assms(1,3,4) by (auto simp: in_bounds_def)
  have ib': "in_bounds ?m'" using bx by (rule built_in_bounds)
  then have nn': "\<forall>e \<in> set (entries ?m'). 0 \<le> e_row e \<and> 0 \<le> e_col e"
    by (auto simp: in_bounds_def)
  have c': "\<forall>e \<in> set (built ReduceAdd (ncols m) ?xs).
              0 \<le> e_row e \<and> 0 \<le> e_col e \<and> e_col e < int (ncols m)"
    using ib' by (auto simp: in_bounds_def)
  have 1: "sparse_assign m (int i) (int j) v = Inr ?m'"
    using nn assms(3,4) by (rule sparse_assign_Inr)
  have at: "filter (\<lambda>e. coord e = (int i, int j)) (entries ?m') = [(int i, int j, v)]"
    using assigned_filter[OF assms(1,2,4,5,6)] by simp
  have 2: "cell ?m' i j = v" unfolding cell_coord[OF nn'] using at by simp
  have sel: "select_cell ?m' (int i) (int j) = Inr v"
    using select_cell_cell[OF nn', of i j] assms(3) 2 by simp
  have 4: "no_dups ?m'" by (rule built_no_dups)
  have same: "built ReduceAdd (ncols m) (built ReduceAdd (ncols m) ?xs @ [(int i, int j, 0)]) =
              built ReduceAdd (ncols m) ?xs"
  proof -
    have j0: "0 \<le> int j" "int j < int (ncols m)" using assms(4) by simp_all
    have at': "filter (\<lambda>x. coord x = (int i, int j)) (built ReduceAdd (ncols m) ?xs) =
               [(int i, int j, v)]" using at by simp
    show ?thesis by (rule reassign_same[OF built_strict c' j0 at' assms(5)])
  qed
  have "sparse_assign ?m' (int i) (int j) v =
        Inr (coalesce ReduceAdd (mk_sparse (nrows ?m') (ncols ?m')
               (entries ?m' @ [(int i, int j, fl32 (fl32 v - cell ?m' i j))])))"
    using nn' by (rule sparse_assign_Inr) (simp_all add: assms)
  also have "\<dots> = Inr ?m'"
    using 2 same assms(5) by (simp add: coalesce_def mk_sparse_def built_def)
  finally have 3: "sparse_assign ?m' (int i) (int j) v = Inr ?m'" .
  from 1 2 sel 3 4 at show ?thesis by blast
qed

theorem sparse_assign_reads_back_idempotent_witness:
  "in_bounds M_ex \<and> no_dups M_ex \<and> (0::nat) < nrows M_ex \<and> (1::nat) < ncols M_ex \<and>
   fl32 5 = 5 \<and> fl32 (cell M_ex 0 1 + fl32 (5 - cell M_ex 0 1)) = 5 \<and>
   (\<exists>m'. sparse_assign M_ex (int 0) (int 1) 5 = Inr m' \<and> cell m' 0 1 = 5 \<and>
         select_cell m' (int 0) (int 1) = Inr 5 \<and>
         sparse_assign m' (int 0) (int 1) 5 = Inr m' \<and> no_dups m' \<and>
         filter (\<lambda>e. coord e = (int 0, int 1)) (entries m') = [(int 0, int 1, 5)])"
proof -
  have h: "in_bounds M_ex" "no_dups M_ex" "(0::nat) < nrows M_ex" "(1::nat) < ncols M_ex"
    by (simp_all add: M_ex_def in_bounds_def no_dups_def coord_def)
  have f: "fl32 5 = 5" by code_simp
  have g: "fl32 (cell M_ex 0 1 + fl32 (5 - cell M_ex 0 1)) = 5" by code_simp
  note c = sparse_assign_reads_back_idempotent[OF h f g]
  show ?thesis
    by (rule conjI[OF h(1) conjI[OF h(2) conjI[OF h(3) conjI[OF h(4) conjI[OF f conjI[OF g c]]]]]])
qed

text \<open>
  Claim C7 as stated fails in binary32. The cell \<open>(0, 1)\<close> of \<open>M_ex\<close> holds 1 and is
  assigned \<open>tenth32\<close>, the binary32 number nearest to 1/10. The difference is rounded to
  24 bits, the cell then reads 0.10000002384 (three units in the last place above
  \<open>tenth32\<close>), and assigning \<open>tenth32\<close> again changes the tensor.
\<close>

theorem sparse_assign_rounds:
  "fl32 tenth32 = tenth32 \<and> cell M_ex 0 1 = 1 \<and>
   sparse_assign M_ex 0 1 tenth32 =
     Inr \<lparr>nrows = 2, ncols = 3, entries = [(0, 1, 13421776 / 134217728), (1, 2, 1)]\<rparr> \<and>
   cell \<lparr>nrows = 2, ncols = 3, entries = [(0, 1, 13421776 / 134217728), (1, 2, 1)]\<rparr> 0 1
     \<noteq> tenth32 \<and>
   sparse_assign \<lparr>nrows = 2, ncols = 3, entries = [(0, 1, 13421776 / 134217728), (1, 2, 1)]\<rparr>
       0 1 tenth32 =
     Inr \<lparr>nrows = 2, ncols = 3, entries = [(0, 1, tenth32), (1, 2, 1)]\<rparr> \<and>
   \<lparr>nrows = 2, ncols = 3, entries = [(0, 1, tenth32), (1, 2, 1)]\<rparr> \<noteq>
     \<lparr>nrows = 2, ncols = 3, entries = [(0, 1, 13421776 / 134217728), (1, 2, 1)]\<rparr>"
proof -
  have 1: "fl32 tenth32 = tenth32" by code_simp
  have 2: "cell M_ex 0 1 = 1" by code_simp
  have 3: "sparse_assign M_ex 0 1 tenth32 =
     Inr \<lparr>nrows = 2, ncols = 3, entries = [(0, 1, 13421776 / 134217728), (1, 2, 1)]\<rparr>"
    by code_simp
  have 4: "cell \<lparr>nrows = 2, ncols = 3, entries = [(0, 1, 13421776 / 134217728), (1, 2, 1)]\<rparr> 0 1
     \<noteq> tenth32" by code_simp
  have 5: "sparse_assign \<lparr>nrows = 2, ncols = 3, entries = [(0, 1, 13421776 / 134217728), (1, 2, 1)]\<rparr>
       0 1 tenth32 =
     Inr \<lparr>nrows = 2, ncols = 3, entries = [(0, 1, tenth32), (1, 2, 1)]\<rparr>" by code_simp
  have 6: "\<lparr>nrows = 2, ncols = 3, entries = [(0, 1, tenth32), (1, 2, 1)]\<rparr> \<noteq>
     \<lparr>nrows = 2, ncols = 3, entries = [(0, 1, 13421776 / 134217728), (1, 2, 1)]\<rparr>"
    by (simp add: tenth32_def)
  from 1 2 3 4 5 6 show ?thesis by blast
qed




section \<open>Fitting\<close>

text \<open>
  Claim C4. With \<open>rounds = 1\<close> the loop of \<open>fit_multi\<close> runs zero times: the call returns
  exactly what \<open>fit\<close> returns, state or error, whatever the batch size and the total.
\<close>

theorem fit_multi_one_round:
  "lp_rounds s = 1 \<Longrightarrow> fit_multi s G M batch_size tot = fit s M"
  unfolding fit_multi_def
  by (cases "fit s M") (auto simp: fit_def Let_def split: option.splits if_splits)

theorem fit_multi_one_round_witness:
  "lp_rounds lp_ex = 1 \<and> fit_multi lp_ex M_ex M_ex 600 1000 = fit lp_ex M_ex"
  using fit_multi_one_round[of lp_ex M_ex M_ex 600 1000]
  by (simp add: lp_ex_def init_def)

section \<open>Mean average precision: properties\<close>

lemma adjacent_equal_Cons_subset:
  "set (adjacent_equal f ws) \<subseteq> set (adjacent_equal f (u # ws))"
  by (cases ws) auto

lemma adjacent_equal_intro:
  "f y = f x \<Longrightarrow> y \<in> set (adjacent_equal f (us @ x # y # zs))"
proof (induction us)
  case Nil
  then show ?case by simp
next
  case (Cons u us)
  then show ?case using adjacent_equal_Cons_subset[of f "us @ x # y # zs" u] by auto
qed

lemma adjacent_equal_elim:
  "y \<in> set (adjacent_equal f L) \<Longrightarrow> \<exists>us x zs. L = us @ x # y # zs \<and> f y = f x"
proof (induction f L rule: adjacent_equal.induct)
  case (1 f x y' zs)
  show ?case
  proof (cases "y = y' \<and> f y' = f x")
    case True
    then have "x # y' # zs = [] @ x # y # zs \<and> f y = f x" by simp
    then show ?thesis by blast
  next
    case False
    with 1(2) have "y \<in> set (adjacent_equal f (y' # zs))" by (auto split: if_splits)
    from 1(1)[OF this] obtain us x' zs' where "y' # zs = us @ x' # y # zs'" "f y = f x'"
      by blast
    then have "x # y' # zs = (x # us) @ x' # y # zs' \<and> f y = f x'" by simp
    then show ?thesis by blast
  qed
qed auto

text \<open>Positions of the concatenation that hold equal values lie on both sides of the seam.\<close>

lemma seam:
  assumes "distinct t" "distinct p" "x < y" "y < length (t @ p)" "(t @ p) ! x = (t @ p) ! y"
  shows "x < length t \<and> length t \<le> y"
proof (rule ccontr)
  assume n: "\<not> (x < length t \<and> length t \<le> y)"
  show False
  proof (cases "y < length t")
    case True
    with assms show False by (auto simp: nth_append nth_eq_iff_index_eq)
  next
    case False
    with n have "length t \<le> x" by simp
    with assms False show False
      by (auto simp: nth_append nth_eq_iff_index_eq)
  qed
qed

lemma stable_order:
  fixes f :: "nat \<Rightarrow> nat"
  assumes L: "sort_key f [0..<n] = us @ a # mid @ b # zs" and e: "f a = f b"
  shows "a < b"
proof -
  let ?P = "\<lambda>q. f q = f b"
  have "filter ?P (sort_key f [0..<n]) = filter ?P [0..<n]" by (rule sort_key_stable)
  moreover have "filter ?P (us @ a # mid @ b # zs) =
                 filter ?P us @ a # filter ?P mid @ b # filter ?P zs"
    using e by simp
  ultimately have "filter ?P [0..<n] = filter ?P us @ a # filter ?P mid @ b # filter ?P zs"
    using L by simp
  moreover have "sorted_wrt (<) (filter ?P [0..<n])"
    by (rule sorted_wrt_filter) simp
  ultimately have "sorted_wrt (<) (filter ?P us @ a # filter ?P mid @ b # filter ?P zs)"
    by simp
  then show ?thesis by (simp add: sorted_wrt_append)
qed

lemma sorted_between:
  fixes f :: "nat \<Rightarrow> nat"
  assumes L: "sort_key f [0..<n] = us @ a # mid @ b # zs" and e: "f a = f b"
    and w: "w \<in> set mid"
  shows "f w = f b"
proof -
  have "sorted (map f (sort_key f [0..<n]))" by (rule sorted_sort_key)
  then have "sorted (map f (us @ a # mid @ b # zs))" using L by simp
  then have "f a \<le> f w" "f w \<le> f b" using w by (auto simp: sorted_append)
  with e show ?thesis by simp
qed

lemma intersect1d_idx2_set:
  assumes dt: "distinct t" and dp: "distinct p"
  shows "set (intersect1d_idx2 t p) = int ` {j. j < length p \<and> p ! j \<in> set t}"
proof -
  let ?aux = "t @ p"
  let ?f = "\<lambda>q. ?aux ! q"
  let ?n = "length ?aux"
  let ?L = "sort_key ?f [0..<?n]"
  have def: "set (intersect1d_idx2 t p) =
             (\<lambda>q. int q - int (length t)) ` set (adjacent_equal ?f ?L)"
    by (simp add: intersect1d_idx2_def Let_def)
  have stable: "\<And>v. filter (\<lambda>q. ?f q = v) ?L = filter (\<lambda>q. ?f q = v) [0..<?n]"
    by (rule sort_key_stable)
  have sorted: "sorted (map ?f ?L)" by (rule sorted_sort_key)
  have setL: "set ?L = {0..<?n}" by simp
  have A: "set (adjacent_equal ?f ?L) = {y. length t \<le> y \<and> y < ?n \<and> ?aux ! y \<in> set t}"
  proof (intro set_eqI iffI)
    fix y assume "y \<in> set (adjacent_equal ?f ?L)"
    then obtain us x zs where L: "?L = us @ x # y # zs" and e: "?f y = ?f x"
      using adjacent_equal_elim by meson
    have "y \<in> set ?L" by (subst L) simp
    then have yn: "y < ?n" by simp
    have "?L = us @ x # [] @ y # zs" using L by simp
    then have "x < y" using e by (intro stable_order[of ?f ?n us x "[]" y zs]) simp_all
    then have s: "x < length t \<and> length t \<le> y"
      using seam[OF dt dp _ yn] e by simp
    then have "?aux ! y \<in> set t" using e by (simp add: nth_append)
    with s yn show "y \<in> {y. length t \<le> y \<and> y < ?n \<and> ?aux ! y \<in> set t}" by simp
  next
    fix y assume "y \<in> {y. length t \<le> y \<and> y < ?n \<and> ?aux ! y \<in> set t}"
    then have y: "length t \<le> y" "y < ?n" "?aux ! y \<in> set t" by simp_all
    then obtain x where x: "x < length t" "t ! x = ?aux ! y" by (metis in_set_conv_nth)
    then have e: "?f x = ?f y" by (simp add: nth_append)
    have xy: "x < y" using x y by simp
    have xL: "x \<in> set ?L" and yL: "y \<in> set ?L" using x y by simp_all
    from xL obtain us vs where L1: "?L = us @ x # vs" by (meson split_list)
    have dL: "distinct ?L" by simp
    have "y \<in> set (us @ x # vs)" using yL by (simp only: L1)
    then have "y \<in> set us \<or> y \<in> set vs" using xy by auto
    moreover have "y \<notin> set us"
    proof
      assume "y \<in> set us"
      then obtain u1 u2 where "us = u1 @ y # u2" by (meson split_list)
      then have L2: "?L = u1 @ y # u2 @ x # vs" by (simp only: L1 append_assoc append_Cons)
      have "y < x" using L2 e by (intro stable_order[of ?f ?n u1 y u2 x vs]) simp_all
      with xy show False by simp
    qed
    ultimately have "y \<in> set vs" by blast
    then obtain ws zs where vs: "vs = ws @ y # zs" by (meson split_list)
    have L3: "?L = us @ x # ws @ y # zs" by (simp only: L1 vs)
    have "ws = []"
    proof (rule ccontr)
      assume "ws \<noteq> []"
      then obtain w where w: "w \<in> set ws" by (meson last_in_set)
      have fw: "?f w = ?f y"
        using L3 e w by (intro sorted_between[of ?f ?n us x ws y zs w]) simp_all
      have "w \<in> set (us @ x # ws @ y # zs)" using w by simp
      then have "w \<in> set ?L" by (simp only: L3)
      then have wn: "w < ?n" by simp
      have "distinct (us @ x # ws @ y # zs)" using dL by (simp only: L3)
      then have wx: "w \<noteq> x" and wy: "w \<noteq> y" using w by auto
      show False
      proof (cases "w < y")
        case True
        then have "w < length t" using seam[OF dt dp True y(2)] fw by simp
        then have wt: "w < length t" .
        have "t ! w = ?aux ! w" using wt by (simp add: nth_append)
        also have "\<dots> = ?aux ! y" using fw by simp
        also have "\<dots> = t ! x" using x(2) by simp
        finally have "t ! w = t ! x" .
        then have "w = x" using wt x(1) dt by (simp add: nth_eq_iff_index_eq)
        with wx show False by simp
      next
        case False
        then have "y < w" using wy by simp
        then have "y < length t" using seam[OF dt dp _ wn, of y] fw by simp
        with y(1) show False by simp
      qed
    qed
    then have "?L = us @ x # y # zs" by (simp only: L3 append_Nil)
    then show "y \<in> set (adjacent_equal ?f ?L)"
      using adjacent_equal_intro[of ?f y x us zs] e by simp
  qed
  have "(\<lambda>q. int q - int (length t)) ` {y. length t \<le> y \<and> y < ?n \<and> ?aux ! y \<in> set t} =
        int ` {j. j < length p \<and> p ! j \<in> set t}"
  proof (intro set_eqI iffI)
    fix z assume "z \<in> (\<lambda>q. int q - int (length t)) ` {y. length t \<le> y \<and> y < ?n \<and> ?aux ! y \<in> set t}"
    then obtain y where y: "z = int y - int (length t)" "length t \<le> y" "y < ?n" "?aux ! y \<in> set t"
      by blast
    then have "z = int (y - length t)" "y - length t < length p" "p ! (y - length t) \<in> set t"
      by (auto simp: nth_append)
    then show "z \<in> int ` {j. j < length p \<and> p ! j \<in> set t}" by blast
  next
    fix z assume "z \<in> int ` {j. j < length p \<and> p ! j \<in> set t}"
    then obtain j where j: "z = int j" "j < length p" "p ! j \<in> set t" by blast
    then have "z = int (length t + j) - int (length t)" "length t \<le> length t + j"
      "length t + j < ?n" "?aux ! (length t + j) \<in> set t"
      by (auto simp: nth_append)
    then show "z \<in> (\<lambda>q. int q - int (length t)) ` {y. length t \<le> y \<and> y < ?n \<and> ?aux ! y \<in> set t}"
      by blast
  qed
  with def A show ?thesis by simp
qed

lemma rel_row_hits:
  assumes "distinct t" "distinct p" "length p \<le> k"
  shows "rel_row k (intersect1d_idx2 t p) =
           Inr (map (\<lambda>pos. if pos < length p \<and> p ! pos \<in> set t then 1 else 0) [0..<k])"
proof -
  have S: "set (intersect1d_idx2 t p) = int ` {j. j < length p \<and> p ! j \<in> set t}"
    using assms(1,2) by (rule intersect1d_idx2_set)
  have ok: "\<not> (\<exists>j \<in> set (intersect1d_idx2 t p). j < - int k \<or> int k \<le> j)"
    using assms(3) by (auto simp: S)
  have "\<And>pos. pos < k \<Longrightarrow>
          (int pos \<in> set (intersect1d_idx2 t p) \<or> int pos - int k \<in> set (intersect1d_idx2 t p))
          = (pos < length p \<and> p ! pos \<in> set t)"
    by (auto simp: S)
  then have "map (\<lambda>pos. if int pos \<in> set (intersect1d_idx2 t p) \<or>
                           int pos - int k \<in> set (intersect1d_idx2 t p) then 1 else 0) [0..<k] =
             map (\<lambda>pos. if pos < length p \<and> p ! pos \<in> set t then 1 else (0::nat)) [0..<k]"
    by (intro map_cong) auto
  with ok show ?thesis unfolding rel_row_def by simp
qed

lemma rel_row_all:
  assumes "distinct t" "k \<le> length p" "take k p = take k t"
  shows "rel_row k (intersect1d_idx2 t (take k p)) = Inr (replicate k (Suc 0))"
proof -
  have d: "distinct (take k p)" using assms(1,3) by (simp add: distinct_take)
  have l: "length (take k p) = k" using assms(2) by simp
  have m: "\<And>pos. pos < k \<Longrightarrow> take k p ! pos \<in> set t"
  proof -
    fix pos assume "pos < k"
    then have "take k p ! pos \<in> set (take k p)" using l by (metis nth_mem)
    then have "take k p ! pos \<in> set (take k t)" using assms(3) by simp
    then show "take k p ! pos \<in> set t" by (rule in_set_takeD)
  qed
  have "rel_row k (intersect1d_idx2 t (take k p)) =
        Inr (map (\<lambda>pos. if pos < length (take k p) \<and> take k p ! pos \<in> set t then 1 else 0) [0..<k])"
    using assms(1) d by (rule rel_row_hits) (simp add: l)
  also have "map (\<lambda>pos. if pos < length (take k p) \<and> take k p ! pos \<in> set t then 1 else 0) [0..<k]
             = map (\<lambda>pos. 1::nat) [0..<k]"
    using m l by (intro map_cong) auto
  also have "\<dots> = replicate k (Suc 0)" by (simp add: map_replicate_const)
  finally show ?thesis .
qed

lemma rel_row_none:
  assumes "distinct t" "distinct (take k p)" "set t \<inter> set (take k p) = {}"
  shows "rel_row k (intersect1d_idx2 t (take k p)) = Inr (replicate k 0)"
proof -
  have "rel_row k (intersect1d_idx2 t (take k p)) =
        Inr (map (\<lambda>pos. if pos < length (take k p) \<and> take k p ! pos \<in> set t then 1 else 0) [0..<k])"
    using assms(1,2) by (rule rel_row_hits) simp
  also have "map (\<lambda>pos. if pos < length (take k p) \<and> take k p ! pos \<in> set t then 1 else 0) [0..<k]
             = map (\<lambda>pos. 0::nat) [0..<k]"
  proof (intro map_cong refl)
    fix pos assume "pos \<in> set [0..<k]"
    have "\<not> (pos < length (take k p) \<and> take k p ! pos \<in> set t)"
      using assms(3) by (metis disjoint_iff nth_mem)
    then show "(if pos < length (take k p) \<and> take k p ! pos \<in> set t then 1 else 0) = (0::nat)"
      by simp
  qed
  also have "\<dots> = replicate k 0" by (simp add: map_replicate_const)
  finally show ?thesis .
qed

lemma rel_rows_all:
  "list_all2 (\<lambda>t p. distinct t \<and> k \<le> length p \<and> take k p = take k t) y_true y_pred \<Longrightarrow>
   rel_rows k y_true y_pred = Inr (replicate (length y_true) (replicate k (Suc 0)))"
proof (induction rule: list_all2_induct)
  case Nil
  show ?case by simp
next
  case (Cons t ts p ps)
  have "rel_row k (intersect1d_idx2 t (take k p)) = Inr (replicate k (Suc 0))"
    using Cons(1) by (intro rel_row_all) simp_all
  with Cons(3) show ?case by (simp del: One_nat_def)
qed

lemma rel_rows_none:
  "list_all2 (\<lambda>t p. distinct t \<and> distinct (take k p) \<and> set t \<inter> set (take k p) = {})
     y_true y_pred \<Longrightarrow>
   rel_rows k y_true y_pred = Inr (replicate (length y_true) (replicate k 0))"
proof (induction rule: list_all2_induct)
  case Nil
  show ?case by simp
next
  case (Cons t ts p ps)
  have "rel_row k (intersect1d_idx2 t (take k p)) = Inr (replicate k 0)"
    using Cons(1) by (intro rel_row_none) simp_all
  with Cons(3) show ?case by simp
qed

lemma cumsum_from_ones:
  "pos < k \<Longrightarrow> cumsum_from acc (replicate k (Suc 0)) ! pos = acc + pos + 1"
proof (induction k arbitrary: acc pos)
  case (Suc k)
  then show ?case by (cases pos) simp_all
qed simp

lemma precisions_ones: "precisions_at_k (replicate k (Suc 0)) = replicate k 1"
proof -
  have "map (\<lambda>p. real (cumsum (replicate k (Suc 0)) ! p) / real (p + 1) *
                 real (replicate k (Suc 0) ! p))
          [0..<k] = map (\<lambda>p. 1) [0..<k]"
    by (intro map_cong) (auto simp: cumsum_def cumsum_from_ones)
  then show ?thesis by (simp add: precisions_at_k_def map_replicate_const)
qed

lemma precisions_zeros: "precisions_at_k (replicate k 0) = replicate k 0"
proof -
  have "map (\<lambda>p. real (cumsum (replicate k 0) ! p) / real (p + 1) * real (replicate k (0::nat) ! p))
          [0..<k] = map (\<lambda>p. 0) [0..<k]"
    by (intro map_cong) auto
  then show ?thesis by (simp add: precisions_at_k_def map_replicate_const)
qed

lemma np_mean_const: "0 < n \<Longrightarrow> np_mean (replicate n (Num c)) = Num c"
  by (auto simp: np_mean_def sum_list_replicate)

text \<open>
  Claim C6, as the code has it. The average precision of a row is the mean over all \<open>k\<close>
  ranks, so a row scores 1 only when its first \<open>k\<close> predictions are \<open>k\<close> ids, all relevant.
  For \<open>k > 0\<close> and at least one row: when every row has at least \<open>k\<close> predictions and
  their first \<open>k\<close> equal the first \<open>k\<close> true ids, in order, the result is 1; when no row's
  first \<open>k\<close> predictions meet its true ids, the result is 0. The ids of a row are distinct,
  as \<open>assume_unique=True\<close> requires.
\<close>

theorem mean_average_precision_extremes:
  assumes "0 < k" and "y_true \<noteq> []"
  shows "(list_all2 (\<lambda>t p. distinct t \<and> nat k \<le> length p \<and> take (nat k) p = take (nat k) t)
            y_true y_pred \<longrightarrow>
          mean_average_precision y_true y_pred k = Inr (Num 1)) \<and>
         (list_all2 (\<lambda>t p. distinct t \<and> distinct (take (nat k) p) \<and>
                            set t \<inter> set (take (nat k) p) = {}) y_true y_pred \<longrightarrow>
          mean_average_precision y_true y_pred k = Inr (Num 0))"
proof -
  have k: "0 < nat k" "\<not> k < 0" using assms(1) by simp_all
  have n: "0 < length y_true" using assms(2) by simp
  show ?thesis
    using k n
    by (auto simp: mean_average_precision_def rel_rows_all rel_rows_none precisions_ones
        precisions_zeros np_mean_const map_replicate_const simp del: replicate_eq_replicate)
qed

theorem mean_average_precision_extremes_witness:
  "mean_average_precision [[5, 3], [1, 2]] [[5, 3, 9], [1, 2]] 2 = Inr (Num 1) \<and>
   mean_average_precision [[5, 3], [1, 2]] [[7, 8], [4]] 2 = Inr (Num 0)"
  using mean_average_precision_extremes[of 2 "[[5, 3], [1, 2]]" "[[5, 3, 9], [1, 2]]"]
    mean_average_precision_extremes[of 2 "[[5, 3], [1, 2]]" "[[7, 8], [4]]"]
  by simp

text \<open>
  Claim C6 as stated fails: with \<open>k = 2\<close>, one row, true ids \<open>[5]\<close> and predictions
  \<open>[5]\<close>, the prediction equals the truth and the result is 1/2, not 1.
\<close>

theorem mean_average_precision_short_row:
  "mean_average_precision [[5]] [[5]] 2 = Inr (Num (1 / 2)) \<and>
   mean_average_precision [[5]] [[5]] 2 \<noteq> Inr (Num 1)"
proof -
  have "mean_average_precision [[5]] [[5]] 2 = Inr (Num (1 / 2))" by code_simp
  then show ?thesis by simp
qed

section \<open>Holdout sampling: properties\<close>

text \<open>
  The run of the sampler on \<open>T_half\<close>, whatever the draws and the ratio: the one triplet
  is not marked, no draw holds it out, and both results store it with its value 1/2.
\<close>

lemma sample_user_items_T_half:
  "rand_mask rnd ratio (sparse_nonzero (candidate T_half)) = [False] \<and>
   entries (fst (sample_user_items rnd T_half ratio)) = [(0, 0, 1 / 2)] \<and>
   entries (snd (sample_user_items rnd T_half ratio)) = [(0, 0, 1 / 2)]"
proof -
  have c: "sparse_nonzero (candidate T_half) = [(0, 0, 1 / 2)]" by code_simp
  have h': "rand_mask rnd ratio [(0, 0, 1 / 2)] = [False]"
    by (simp add: rand_mask_def)
  have h: "rand_mask rnd ratio (sparse_nonzero (candidate T_half)) = [False]"
    unfolding c by (rule h')
  have s: "map2 settle [False] [(0, 0, 1 / 2)] = [(0 :: int, 0 :: int, 1 / 2 :: real)]"
    by (simp add: settle_def)
  have b: "built ReduceAdd (Suc 0) [(0, 0, 1 / 2)] = [(0, 0, 1 / 2)]" by code_simp
  have r: "recode (0 :: int, 0 :: int, 1 / 2 :: real) = (0, 0, 1 / 2)"
    by (simp add: recode_def)
  have o: "entries (fst (sample_user_items rnd T_half ratio)) = [(0, 0, 1 / 2)]"
    unfolding sample_user_items_def Let_def c h' s by (simp add: T_half_def b)
  have t: "entries (snd (sample_user_items rnd T_half ratio)) = [(0, 0, 1 / 2)]"
    unfolding sample_user_items_def Let_def c h' s by (simp add: T_half_def b r)
  from h o t show ?thesis by blast
qed

text \<open>
  Claim C5 fails on the code. The single row of \<open>T_half\<close> has degree 1/2, so nothing is
  held out of it and it reads the same in the observed result; yet its entry is stored
  with value 1/2 in the held-out result as well: the observed entry is not taken out of
  the ground truth.
\<close>

theorem sample_user_items_weighted_row:
  "sum_dim1 T_half ! 0 \<le> 1 \<and>
   cell (fst (sample_user_items rnd T_half ratio)) 0 0 = cell T_half 0 0 \<and>
   cell (snd (sample_user_items rnd T_half ratio)) 0 0 = 1 / 2 \<and>
   positives (snd (sample_user_items rnd T_half ratio)) 0 \<noteq> {}"
proof -
  have o: "cell (fst (sample_user_items rnd T_half ratio)) 0 0 = cell T_half 0 0"
    using sample_user_items_T_half[of rnd ratio]
    by (simp add: cell_def wrap_index_def T_half_def)
  have c: "cell (snd (sample_user_items rnd T_half ratio)) 0 0 = 1 / 2"
    using sample_user_items_T_half[of rnd ratio] by (simp add: cell_def wrap_index_def)
  have d: "sum_dim1 T_half ! 0 \<le> 1" by (simp add: T_half_def sum_dim1_def)
  have "0 \<in> positives (snd (sample_user_items rnd T_half ratio)) 0"
    unfolding positives_def using c by simp
  with o c d show ?thesis by blast
qed

text \<open>
  A kept value also reaches both results in a row of degree above 1, when the sentinel
  does not survive the binary32 arithmetic. The stored value \<open>2 ^ 25 + 4\<close> of \<open>T_big\<close> is
  marked by adding the rounded difference \<open>2 - (2 ^ 25 + 4)\<close>, which leaves 4 and not 2;
  the value 4 is then stored in both results.
\<close>

lemma sample_user_items_sentinel_rounded:
  "1 < sum_dim1 T_big ! 0 \<and>
   entries (candidate T_big) = [(0, 0, 4), (0, 1, 2)] \<and>
   entries (fst (sample_user_items (\<lambda>p. 0) T_big (2 / 5))) = [(0, 0, 4), (0, 1, 0)] \<and>
   entries (snd (sample_user_items (\<lambda>p. 0) T_big (2 / 5))) = [(0, 0, 4), (0, 1, 1)]"
proof -
  have d: "1 < sum_dim1 T_big ! 0" by (simp add: T_big_def sum_dim1_def)
  have c: "entries (candidate T_big) = [(0, 0, 4), (0, 1, 2)]" by code_simp
  have o: "entries (fst (sample_user_items (\<lambda>p. 0) T_big (2 / 5))) = [(0, 0, 4), (0, 1, 0)]"
    by code_simp
  have t: "entries (snd (sample_user_items (\<lambda>p. 0) T_big (2 / 5))) = [(0, 0, 4), (0, 1, 1)]"
    by code_simp
  from d c o t show ?thesis by blast
qed

text \<open>
  Claim C10 fails on the code. The only coordinate of \<open>T_half\<close> is kept: no draw holds it
  out, and the observed result stores it with its value 1/2. The held-out result stores
  1/2 there too, not 0.
\<close>

theorem sample_user_items_kept_not_zero:
  "rand_mask rnd ratio (sparse_nonzero (candidate T_half)) = [False] \<and>
   entries (fst (sample_user_items rnd T_half ratio)) = [(0, 0, 1 / 2)] \<and>
   entries (snd (sample_user_items rnd T_half ratio)) = [(0, 0, 1 / 2)] \<and>
   e_val (entries (snd (sample_user_items rnd T_half ratio)) ! 0) \<noteq> 0"
  using sample_user_items_T_half[of rnd ratio] by simp

section \<open>The predictor: properties\<close>

lemma neg_pow_zero [simp]: "neg_pow d 0 = 1"
  by (simp add: neg_pow_def)

lemma fitw: "fit (init 0 0 0 0 1 (1/20) 2) X_heavy = Inr s_heavy"
  by (simp add: fit_def init_def X_heavy_def s_heavy_def sum_dim1_def sum_dim0_def sparse_nonzero_def
      reweight_def mk_sparse_def idx_def Let_def e_row_def e_col_def e_val_def upt_rec
      wrap_index_def)

lemma fit_id: "fit (init 0 0 0 0 1 (1/20) 2) X_id = Inr s_id"
  by (simp add: fit_def init_def X_id_def s_id_def sum_dim1_def sum_dim0_def sparse_nonzero_def
      reweight_def mk_sparse_def idx_def Let_def e_row_def e_col_def e_val_def upt_rec
      wrap_index_def)

lemma fit_fitted_on: "fit s0 M = Inr s \<Longrightarrow> fitted_on s M"
  by (auto simp: fit_def fitted_on_def Let_def mk_sparse_def split: option.splits if_splits)

lemma slice_rows_shape:
  "slice_rows m a b = Inr x \<Longrightarrow> nrows x = b - a \<and> ncols x = ncols m \<and> a + (b - a) \<le> nrows m"
  by (auto simp: slice_rows_def Let_def split: if_splits)

lemma slice_rows_ok:
  "a + (b - a) \<le> nrows m \<Longrightarrow> \<exists>x. slice_rows m a b = Inr x"
  by (auto simp: slice_rows_def Let_def)

lemma matmul_shape:
  "matmul a b = Inr x \<Longrightarrow> nrows x = nrows a \<and> ncols x = ncols b"
  by (auto simp: matmul_def split: if_splits)

lemma matmul_ok: "ncols a = nrows b \<Longrightarrow> \<exists>x. matmul a b = Inr x"
  by (simp add: matmul_def)

lemma transpose_shape [simp]:
  "nrows (transpose_sparse m) = ncols m" "ncols (transpose_sparse m) = nrows m"
  by (simp_all add: transpose_sparse_def mk_sparse_def)

lemma get_preds_shape:
  assumes "fitted_on s M" "get_preds_for_users s G start stop = Inr sp"
  shows "nrows sp = stop - start \<and> ncols sp = ncols M"
proof -
  from assms(1) obtain ab gd where f: "M_alpha_beta s = Some ab" "M_gamma_delta s = Some gd"
    "ncols gd = ncols M"
    by (auto simp: fitted_on_def split: option.splits)
  from assms(2) f obtain a p where a: "slice_rows ab start stop = Inr a"
    and p: "matmul a (transpose_sparse G) = Inr p" and sp: "matmul p gd = Inr sp"
    by (auto simp: get_preds_for_users_def split: sum.splits)
  show ?thesis
    using slice_rows_shape[OF a] matmul_shape[OF p] matmul_shape[OF sp] f(3) by simp
qed

lemma get_preds_ok:
  assumes "fitted_on s M" "nrows G = nrows M" "ncols G = ncols M" "start + (stop - start) \<le> nrows M"
  shows "\<exists>sp. get_preds_for_users s G start stop = Inr sp"
proof -
  from assms(1) obtain ab gd where f: "M_alpha_beta s = Some ab" "M_gamma_delta s = Some gd"
    "nrows ab = nrows M" "ncols ab = ncols M" "nrows gd = nrows M"
    by (auto simp: fitted_on_def split: option.splits)
  obtain a where a: "slice_rows ab start stop = Inr a"
    using slice_rows_ok[of start stop ab] assms(4) f(3) by auto
  have "ncols a = nrows (transpose_sparse G)"
    using slice_rows_shape[OF a] f(4) assms(3) by simp
  then obtain p where p: "matmul a (transpose_sparse G) = Inr p" using matmul_ok by blast
  have "ncols p = nrows gd" using matmul_shape[OF p] assms(2) f(5) by simp
  then obtain sp where sp: "matmul p gd = Inr sp" using matmul_ok by blast
  show ?thesis using f a p sp by (simp add: get_preds_for_users_def)
qed

lemma broadcast_same [simp]: "broadcast n n = Some n"
  by (simp add: broadcast_def)

lemma predict_topk_unfold:
  assumes "fitted_on s M" "get_preds_for_users s G start stop = Inr sp"
    "slice_rows M start stop = Inr mb"
  shows "predict_topk s G M start stop k =
     (if k < 0 \<or> int (ncols M) < k then Inl RuntimeError
      else Inr (map (\<lambda>r. map snd
                        (filter (\<lambda>vp. fst vp > 0)
                           (topk_row (nat k)
                              (map (masked_scores (to_dense sp) (to_dense mb) r)
                                 [0..<ncols M]))))
                  [0..<stop - start]))"
  using assms(2,3) get_preds_shape[OF assms(1,2)] slice_rows_shape[OF assms(3)]
  by (simp add: predict_topk_def Let_def to_dense_def)

lemma predict_topk_fails:
  assumes "fitted_on s M" "int (ncols M) < k"
  shows "isl (predict_topk s G M start stop k)"
proof (cases "get_preds_for_users s G start stop")
  case (Inl e)
  then show ?thesis by (simp add: predict_topk_def)
next
  case (Inr sp)
  show ?thesis
  proof (cases "slice_rows M start stop")
    case (Inl e)
    with Inr show ?thesis by (simp add: predict_topk_def)
  next
    case r: (Inr mb)
    show ?thesis using predict_topk_unfold[OF assms(1) Inr r] assms(2) by simp
  qed
qed

lemma predict_topk_succeeds:
  assumes "fitted_on s M" "nrows G = nrows M" "ncols G = ncols M"
    "start \<le> stop" "stop \<le> nrows M" "0 \<le> k" "k \<le> int (ncols M)"
  shows "\<not> isl (predict_topk s G M start stop k)"
proof -
  have b: "start + (stop - start) \<le> nrows M" using assms(4,5) by simp
  obtain sp where sp: "get_preds_for_users s G start stop = Inr sp"
    using get_preds_ok[OF assms(1,2,3) b] by blast
  obtain mb where mb: "slice_rows M start stop = Inr mb"
    using slice_rows_ok[OF b] by blast
  show ?thesis using predict_topk_unfold[OF assms(1) sp mb] assms(6,7) by simp
qed

lemma fit_one: "fit (init 0 0 0 0 2 2 12) M_one = Inr s_one"
  by (simp add: fit_def init_def M_one_def s_one_def sum_dim1_def sum_dim0_def sparse_nonzero_def
      reweight_def mk_sparse_def idx_def Let_def e_row_def e_col_def e_val_def wrap_index_def)

lemma batch_k_one:
  "map_sum id (\<lambda>mb. batch_k s_one mb 0 1) (slice_rows M_one 0 1) = Inr 2"
  by code_simp

lemma fit_rounds_one: "fit_rounds 1 s_one M_one M_one 1 1 = Inl RuntimeError"
  by code_simp

lemma fit_multi_uncapped: "fit_multi (init 0 0 0 0 2 2 12) M_one M_one 1 1 = Inl RuntimeError"
proof -
  have "fit_multi (init 0 0 0 0 2 2 12) M_one M_one 1 1 =
        fit_rounds (nat (lp_rounds s_one - 1)) s_one M_one M_one 1 1"
    by (simp only: fit_multi_def fit_one sum.case)
  moreover have "nat (lp_rounds s_one - 1) = 1" by (simp add: s_one_def init_def)
  ultimately show ?thesis by (simp only: fit_rounds_one)
qed

lemma topk_row_positions: "p \<in> snd ` set (topk_row k vs) \<Longrightarrow> p < length vs"
proof -
  assume "p \<in> snd ` set (topk_row k vs)"
  then have "p \<in> set (take k (sort_key (\<lambda>p. - (vs ! p)) [0..<length vs]))"
    by (auto simp: topk_row_def)
  then have "p \<in> set (sort_key (\<lambda>p. - (vs ! p)) [0..<length vs])" by (rule in_set_takeD)
  then show ?thesis by simp
qed

lemma topk_row_length: "length (topk_row k vs) \<le> k"
  by (simp add: topk_row_def)

lemma predict_topk_Inr_parts:
  assumes "predict_topk s G M start stop k = Inr res"
  shows "\<exists>sp mb. get_preds_for_users s G start stop = Inr sp \<and> slice_rows M start stop = Inr mb"
  using assms by (auto simp: predict_topk_def split: sum.splits)

lemma predict_topk_result:
  assumes f: "fitted_on s M" and r: "predict_topk s G M start stop k = Inr res"
  shows "length res = stop - start \<and> start + (stop - start) \<le> nrows M \<and>
         (\<forall>row \<in> set res. length row \<le> nat k \<and> (\<forall>c \<in> set row. c < ncols M))"
proof -
  obtain sp mb where sp: "get_preds_for_users s G start stop = Inr sp"
    and mb: "slice_rows M start stop = Inr mb"
    using predict_topk_Inr_parts[OF r] by blast
  let ?row = "\<lambda>r. map snd (filter (\<lambda>vp. fst vp > 0)
                 (topk_row (nat k) (map (masked_scores (to_dense sp) (to_dense mb) r) [0..<ncols M])))"
  have res: "res = map ?row [0..<stop - start]"
    using predict_topk_unfold[OF f sp mb, of k] r by (simp split: if_splits)
  have rows: "\<And>q. length (?row q) \<le> nat k \<and> (\<forall>c \<in> set (?row q). c < ncols M)"
  proof -
    fix q
    let ?vs = "map (masked_scores (to_dense sp) (to_dense mb) q) [0..<ncols M]"
    have "length (?row q) \<le> length (topk_row (nat k) ?vs)" by simp
    then have l: "length (?row q) \<le> nat k" using topk_row_length[of "nat k" ?vs] by linarith
    have "\<forall>c \<in> set (?row q). c < ncols M"
    proof
      fix c assume "c \<in> set (?row q)"
      then have "c \<in> snd ` set (topk_row (nat k) ?vs)" by auto
      then have "c < length ?vs" by (rule topk_row_positions)
      then show "c < ncols M" by simp
    qed
    with l show "length (?row q) \<le> nat k \<and> (\<forall>c \<in> set (?row q). c < ncols M)" by blast
  qed
  have "\<forall>row \<in> set res. length row \<le> nat k \<and> (\<forall>c \<in> set row. c < ncols M)"
    unfolding res using rows by auto
  moreover have "length res = stop - start" unfolding res by simp
  moreover have "start + (stop - start) \<le> nrows M" using slice_rows_shape[OF mb] by simp
  ultimately show ?thesis by blast
qed

lemma link_indices_bounds:
  assumes "rc \<in> set (link_indices start predicted)"
  shows "fst rc < start + length predicted \<and> (\<exists>row \<in> set predicted. snd rc \<in> set row)"
proof -
  from assms obtain i row where ir: "(i, row) \<in> set (enumerate 0 predicted)"
    and rc: "rc \<in> set (map (\<lambda>c. (start + i, c)) row)"
    by (auto simp: link_indices_def)
  from ir have "i < length predicted" "predicted ! i = row"
    by (simp_all add: in_set_enumerate_eq)
  then have "row \<in> set predicted" by (metis nth_mem)
  with rc \<open>i < length predicted\<close> show ?thesis by auto
qed

lemma link_indices_mem:
  "(i, j) \<in> set (link_indices start predicted) \<longleftrightarrow>
   start \<le> i \<and> i - start < length predicted \<and> j \<in> set (predicted ! (i - start))"
proof
  assume "(i, j) \<in> set (link_indices start predicted)"
  then obtain q row where ir: "(q, row) \<in> set (enumerate 0 predicted)"
    and rc: "(i, j) \<in> set (map (\<lambda>c. (start + q, c)) row)"
    by (auto simp: link_indices_def)
  from ir have "q < length predicted" "predicted ! q = row"
    by (simp_all add: in_set_enumerate_eq)
  moreover from rc have "i = start + q" "j \<in> set row" by auto
  ultimately show "start \<le> i \<and> i - start < length predicted \<and> j \<in> set (predicted ! (i - start))"
    by simp
next
  assume h: "start \<le> i \<and> i - start < length predicted \<and> j \<in> set (predicted ! (i - start))"
  then have "(i - start, predicted ! (i - start)) \<in> set (enumerate 0 predicted)"
    by (simp add: in_set_enumerate_eq)
  moreover have "(i, j) \<in> set (map (\<lambda>c. (start + (i - start), c)) (predicted ! (i - start)))"
    using h by auto
  ultimately show "(i, j) \<in> set (link_indices start predicted)"
    unfolding link_indices_def by (auto intro!: bexI)
qed

lemma foldl_max_ones:
  "foldl max (v::real) (replicate n 1) = (if n = 0 then v else max v 1)"
  by (induction n arbitrary: v) auto

lemma filter_ones:
  "filter (\<lambda>x. coord x = (int i, int j)) (map (\<lambda>rc. (int (fst rc), int (snd rc), 1)) idxs) =
   replicate (length (filter (\<lambda>rc. rc = (i, j)) idxs)) (int i, int j, 1)"
  by (induction idxs) (auto simp: coord_def)

lemma reduce_max_fold: "foldl (reduce_op ReduceMax) v xs = foldl max v xs"
proof -
  have "reduce_op ReduceMax = max" by (intro ext) simp
  then show ?thesis by simp
qed

lemma merge_links_cell:
  assumes ib: "\<forall>e \<in> set (entries M_new). 0 \<le> e_row e \<and> 0 \<le> e_col e \<and> e_col e < int (ncols M)"
    and nd: "no_dups M_new" and ix: "\<forall>rc \<in> set idxs. snd rc < ncols M"
  shows "cell (merge_links M M_new idxs) i j =
           (if (i, j) \<in> set idxs then max (cell M_new i j) 1 else cell M_new i j)"
proof -
  let ?P = "\<lambda>x. coord x = (int i, int j)"
  let ?xs = "entries M_new @ map (\<lambda>rc. (int (fst rc), int (snd rc), 1)) idxs"
  let ?n = "length (filter (\<lambda>rc. rc = (i, j)) idxs)"
  have nn: "\<forall>e \<in> set (entries M_new). 0 \<le> e_row e \<and> 0 \<le> e_col e" using ib by blast
  have cols: "\<forall>e \<in> set ?xs. 0 \<le> e_row e \<and> 0 \<le> e_col e \<and> e_col e < int (ncols M)"
    using ib ix by auto
  have c: "cell (merge_links M M_new idxs) i j =
     (case filter ?P ?xs of
        [] \<Rightarrow> 0
      | e # rest \<Rightarrow> foldl (reduce_op ReduceMax) (e_val e) (map e_val rest))"
    unfolding merge_links_def using cols by (rule built_cell)
  have f: "filter ?P ?xs = filter ?P (entries M_new) @ replicate ?n (int i, int j, 1)"
    by (simp add: filter_ones)
  have n: "(i, j) \<in> set idxs \<longleftrightarrow> ?n \<noteq> 0"
    by (auto simp: filter_empty_conv)
  from nd have "filter ?P (entries M_new) = [] \<or> (\<exists>e. filter ?P (entries M_new) = [e])"
    unfolding no_dups_def by (rule distinct_map_filter)
  then show ?thesis
  proof
    assume e: "filter ?P (entries M_new) = []"
    then have z: "cell M_new i j = 0" by (simp add: cell_coord[OF nn])
    show ?thesis
    proof (cases ?n)
      case 0
      then show ?thesis using c f e z n by simp
    next
      case (Suc k)
      then have "filter ?P ?xs = (int i, int j, 1) # replicate k (int i, int j, 1)"
        using f e by simp
      then show ?thesis using c z n Suc
        by (simp add: reduce_max_fold foldl_max_ones)
    qed
  next
    assume "\<exists>e. filter ?P (entries M_new) = [e]"
    then obtain e where e: "filter ?P (entries M_new) = [e]" by blast
    then have z: "cell M_new i j = e_val e" by (simp add: cell_coord[OF nn])
    have "filter ?P ?xs = e # replicate ?n (int i, int j, 1)" using f e by simp
    then show ?thesis using c z n
      by (simp add: reduce_max_fold foldl_max_ones)
  qed
qed

lemma merge_links_shape [simp]:
  "nrows (merge_links M M_new idxs) = nrows M" "ncols (merge_links M M_new idxs) = ncols M"
  by (simp_all add: merge_links_def)

lemma merge_links_no_dups: "no_dups (merge_links M M_new idxs)"
  unfolding merge_links_def by (rule built_no_dups)

lemma merge_links_in_bounds:
  assumes "\<forall>e \<in> set (entries M_new). 0 \<le> e_row e \<and> e_row e < int (nrows M) \<and>
                                    0 \<le> e_col e \<and> e_col e < int (ncols M)"
    and "\<forall>rc \<in> set idxs. fst rc < nrows M \<and> snd rc < ncols M"
  shows "in_bounds (merge_links M M_new idxs)"
proof -
  have "in_bounds (coalesce ReduceMax (mk_sparse (nrows M) (ncols M)
          (entries M_new @ map (\<lambda>rc. (int (fst rc), int (snd rc), 1)) idxs)))"
    using assms by (intro built_in_bounds) auto
  then show ?thesis by (simp add: merge_links_def)
qed

text \<open>
  One batch of the sweep: the working copy keeps its shape and its invariants, and a cell
  is raised to the maximum of its value and 1 exactly when the batch predicts its pair.
\<close>

lemma sweep_step:
  assumes f: "fitted_on s M"
    and sh: "nrows A = nrows M" "ncols A = ncols M" and ib: "in_bounds A" and nd: "no_dups A"
    and p: "predict_topk s G M start stop k = Inr predicted"
  shows "in_bounds (merge_links M A (link_indices start predicted)) \<and>
         (\<forall>i j. cell (merge_links M A (link_indices start predicted)) i j =
                  (if start \<le> i \<and> i - start < length predicted \<and> j \<in> set (predicted ! (i - start))
                   then max (cell A i j) 1 else cell A i j))"
proof -
  let ?idxs = "link_indices start predicted"
  note pr = predict_topk_result[OF f p]
  have ix: "\<forall>rc \<in> set ?idxs. fst rc < nrows M \<and> snd rc < ncols M"
  proof
    fix rc assume "rc \<in> set ?idxs"
    from link_indices_bounds[OF this] obtain row where
      "fst rc < start + length predicted" "row \<in> set predicted" "snd rc \<in> set row" by blast
    with pr show "fst rc < nrows M \<and> snd rc < ncols M" by auto
  qed
  have eb: "\<forall>e \<in> set (entries A). 0 \<le> e_row e \<and> e_row e < int (nrows M) \<and>
                                  0 \<le> e_col e \<and> e_col e < int (ncols M)"
    using ib sh by (simp add: in_bounds_def)
  have cell: "\<And>i j. cell (merge_links M A ?idxs) i j =
           (if (i, j) \<in> set ?idxs then max (cell A i j) 1 else cell A i j)"
    using eb nd ix by (intro merge_links_cell) auto
  show ?thesis
    using merge_links_in_bounds[OF eb ix] cell by (simp add: link_indices_mem)
qed

lemma predicted_in_batch_eq:
  assumes "slice_rows M start (min (start + batch_size) tot) = Inr mb"
    and "predict_topk s G M start (min (start + batch_size) tot)
           (batch_k s mb start (min (start + batch_size) tot)) = Inr predicted"
  shows "predicted_in_batch s G M batch_size tot start i j \<longleftrightarrow>
         start \<le> i \<and> i - start < length predicted \<and> j \<in> set (predicted ! (i - start))"
  using assms by (simp add: predicted_in_batch_def Let_def)

lemma sweep_cells:
  assumes "fitted_on s M" "nrows A = nrows M" "ncols A = ncols M" "in_bounds A" "no_dups A"
    "sweep s G M batch_size tot starts A = Inr M_out"
  shows "nrows M_out = nrows M \<and> ncols M_out = ncols M \<and> in_bounds M_out \<and> no_dups M_out \<and>
         (\<forall>i j. cell M_out i j =
                  (if \<exists>start \<in> set starts. predicted_in_batch s G M batch_size tot start i j
                   then max (cell A i j) 1 else cell A i j))"
  using assms
proof (induction starts arbitrary: A)
  case Nil
  then show ?case by simp
next
  case (Cons start starts)
  let ?stop = "min (start + batch_size) tot"
  from Cons.prems(6) obtain mb predicted where
    mb: "slice_rows M start ?stop = Inr mb" and
    p: "predict_topk s G M start ?stop (batch_k s mb start ?stop) = Inr predicted" and
    rest: "sweep s G M batch_size tot starts
             (merge_links M A (link_indices start predicted)) = Inr M_out"
    by (auto simp: Let_def split: sum.splits)
  let ?A = "merge_links M A (link_indices start predicted)"
  note st = sweep_step[OF Cons.prems(1,2,3,4,5) p]
  have ibA: "in_bounds ?A" using st by blast
  have cA: "\<And>i j. cell ?A i j =
              (if predicted_in_batch s G M batch_size tot start i j
               then max (cell A i j) 1 else cell A i j)"
    using st predicted_in_batch_eq[OF mb p] by simp
  note ih = Cons.IH[OF Cons.prems(1) _ _ ibA merge_links_no_dups rest, simplified]
  have "\<And>i j. cell M_out i j =
          (if \<exists>q \<in> set (start # starts). predicted_in_batch s G M batch_size tot q i j
           then max (cell A i j) 1 else cell A i j)"
  proof -
    fix i j
    have "cell M_out i j =
            (if \<exists>q \<in> set starts. predicted_in_batch s G M batch_size tot q i j
             then max (cell ?A i j) 1 else cell ?A i j)"
      using ih by blast
    then show "cell M_out i j =
          (if \<exists>q \<in> set (start # starts). predicted_in_batch s G M batch_size tot q i j
           then max (cell A i j) 1 else cell A i j)"
      using cA[of i j] by auto
  qed
  then show ?case using ih by blast
qed

lemma fit_params:
  assumes "fit s0 M = Inr s"
  shows "lp_rounds s = lp_rounds s0 \<and> lp_t s = lp_t s0 \<and> lp_k s = lp_k s0"
  using assms by (auto simp: fit_def Let_def split: option.splits if_splits)

lemma fit_cached:
  assumes "user_degrees s = Some ud" "item_degrees s = Some idg"
    and "\<forall>e \<in> set (sparse_nonzero M). 0 \<le> e_row e \<and> e_row e < int (length ud) \<and>
                                          0 \<le> e_col e \<and> e_col e < int (length idg)"
  shows "fit s M =
     Inr (s\<lparr>M_alpha_beta :=
              Some (mk_sparse (nrows M) (ncols M)
                      (reweight (map (\<lambda>d. neg_pow d (lp_alpha s)) ud)
                                (map (\<lambda>d. neg_pow d (lp_beta s)) idg) (sparse_nonzero M))),
            M_gamma_delta :=
              Some (mk_sparse (nrows M) (ncols M)
                      (reweight (map (\<lambda>d. neg_pow d (lp_gamma s)) ud)
                                (map (\<lambda>d. neg_pow d (lp_delta s)) idg) (sparse_nonzero M)))\<rparr>)"
proof -
  have "\<not> (\<exists>e \<in> set (sparse_nonzero M).
            e_row e < - int (length ud) \<or> int (length ud) \<le> e_row e \<or>
            e_col e < - int (length idg) \<or> int (length idg) \<le> e_col e)"
    using assms(3) by fastforce
  then show ?thesis using assms(1,2) by (simp add: fit_def Let_def)
qed

lemma nonzero_in_bounds:
  "in_bounds M \<Longrightarrow>
   \<forall>e \<in> set (sparse_nonzero M). 0 \<le> e_row e \<and> e_row e < int (nrows M) \<and>
                                     0 \<le> e_col e \<and> e_col e < int (ncols M)"
  by (simp add: in_bounds_def sparse_nonzero_def)

lemma length_sums [simp]: "length (sum_dim1 m) = nrows m" "length (sum_dim0 m) = ncols m"
  by (simp_all add: sum_dim1_def sum_dim0_def)

lemma topk_row_values:
  assumes "(v, c) \<in> set (topk_row k vs)"
  shows "c < length vs \<and> v = vs ! c"
proof -
  from assms obtain p where p: "p \<in> set (take k (sort_key (\<lambda>p. - (vs ! p)) [0..<length vs]))"
    and e: "(v, c) = (vs ! p, p)"
    by (auto simp: topk_row_def)
  from p have "p \<in> set (sort_key (\<lambda>p. - (vs ! p)) [0..<length vs])" by (rule in_set_takeD)
  then have "p < length vs" by simp
  with e show ?thesis by simp
qed

lemma predict_topk_positive_scores:
  assumes f: "fitted_on s M"
    and sp: "get_preds_for_users s G start stop = Inr sp"
    and mb: "slice_rows M start stop = Inr mb"
    and r: "predict_topk s G M start stop k = Inr res"
    and q: "q < length res" and c: "c \<in> set (res ! q)"
  shows "c < ncols M \<and> length (res ! q) \<le> nat k \<and>
         0 < masked_scores (to_dense sp) (to_dense mb) q c \<and>
         \<not> (bat (to_dense mb) q c = 1 \<and> bat (to_dense sp) q c \<le> 100000)"
proof -
  let ?vs = "\<lambda>r. map (masked_scores (to_dense sp) (to_dense mb) r) [0..<ncols M]"
  let ?row = "\<lambda>r. map snd (filter (\<lambda>vp. fst vp > 0) (topk_row (nat k) (?vs r)))"
  have res: "res = map ?row [0..<stop - start]"
    using predict_topk_unfold[OF f sp mb, of k] r by (simp split: if_splits)
  have qq: "q < stop - start" using q res by simp
  then have row: "res ! q = ?row q" using res by simp
  from c obtain v where v: "(v, c) \<in> set (topk_row (nat k) (?vs q))" "0 < v"
    unfolding row by auto
  from topk_row_values[OF v(1)] have cb: "c < ncols M" and ve: "v = ?vs q ! c" by simp_all
  then have m: "0 < masked_scores (to_dense sp) (to_dense mb) q c" using v(2) by simp
  have l: "length (res ! q) \<le> nat k"
    using predict_topk_result[OF f r] q by (metis nth_mem)
  have "\<not> (bat (to_dense mb) q c = 1 \<and> bat (to_dense sp) q c \<le> 100000)"
    using m by (auto simp: masked_scores_def)
  with cb l m show ?thesis by blast
qed


lemma fit_scn: "fit (init 0 0 0 0 2 (1/2) 2) M_scn = Inr s_scn"
  by (simp add: fit_def init_def M_scn_def s_scn_def sum_dim1_def sum_dim0_def sparse_nonzero_def
      reweight_def mk_sparse_def idx_def Let_def e_row_def e_col_def e_val_def upt_rec
      wrap_index_def)

text \<open>
  The end-to-end scenario of the specification: row 0 may only return column 2, and does.
\<close>

lemma predict_topk_scenario: "predict_topk s_scn M_scn M_scn 0 4 2 = Inr [[2], [0, 1], [], []]"
  by code_simp

text \<open>
  Claim C1 fails on the code. Fitted on \<open>X_heavy\<close> with all exponents 0, the observed cell
  \<open>(0, 0)\<close>, of value 1, scores 180001; the sentinel leaves 80001, which is positive, and
  \<open>predict_topk\<close> returns column 0 for row 0.
\<close>

theorem predict_topk_returns_observed:
  "fit (init 0 0 0 0 1 (1/20) 2) X_heavy = Inr s_heavy \<and> cell X_heavy 0 0 = 1 \<and>
   map_sum id (\<lambda>sp. cell sp 0 0) (get_preds_for_users s_heavy X_heavy 0 2) = Inr 180001 \<and>
   predict_topk s_heavy X_heavy X_heavy 0 2 2 = Inr [[1, 0], [0, 1]]"
proof -
  have 1: "cell X_heavy 0 0 = 1" by code_simp
  have 2: "map_sum id (\<lambda>sp. cell sp 0 0) (get_preds_for_users s_heavy X_heavy 0 2) = Inr 180001"
    by code_simp
  have 3: "predict_topk s_heavy X_heavy X_heavy 0 2 2 = Inr [[1, 0], [0, 1]]" by code_simp
  from fitw 1 2 3 show ?thesis by blast
qed

text \<open>
  Claim C2 fails on the code. The predictor is fitted on \<open>X_id\<close>; the score of cell
  \<open>(0, 1)\<close> is 1 with the module-level matrix \<open>G_ones\<close>, where the product through the
  transpose of \<open>X_id\<close> itself is 0.
\<close>

theorem get_preds_uses_module_matrix:
  "fit (init 0 0 0 0 1 (1/20) 2) X_id = Inr s_id \<and>
   map_sum id (\<lambda>sp. cell sp 0 1) (get_preds_for_users s_id G_ones 0 2) = Inr 1 \<and>
   map_sum id (\<lambda>sp. cell sp 0 1) (get_preds_for_users s_id X_id 0 2) = Inr 0"
proof -
  have 1: "map_sum id (\<lambda>sp. cell sp 0 1) (get_preds_for_users s_id G_ones 0 2) = Inr 1"
    by code_simp
  have 2: "map_sum id (\<lambda>sp. cell sp 0 1) (get_preds_for_users s_id X_id 0 2) = Inr 0"
    by code_simp
  from fit_id 1 2 show ?thesis by blast
qed

text \<open>
  Claim C9. For a predictor fitted on \<open>M\<close>, \<open>predict_topk\<close> fails whenever \<open>k\<close> exceeds the
  number of columns of \<open>M\<close>, and returns when the module-level matrix has the shape of
  \<open>M\<close>, the range lies inside the rows and \<open>0 \<le> k \<le> ncols M\<close>. The \<open>k\<close> that
  \<open>fit_multi\<close> derives is not capped: on the 1 x 1 matrix with \<open>t = 2\<close> the batch asks for
  \<open>k = 2\<close> of 1 column and \<open>fit_multi\<close> fails.
\<close>

theorem predict_topk_total_iff_k_le_ncols:
  assumes "fitted_on s M"
  shows "(int (ncols M) < k \<longrightarrow> isl (predict_topk s G M start stop k)) \<and>
         (nrows G = nrows M \<and> ncols G = ncols M \<and> start \<le> stop \<and> stop \<le> nrows M \<and>
          0 \<le> k \<and> k \<le> int (ncols M) \<longrightarrow> \<not> isl (predict_topk s G M start stop k)) \<and>
         map_sum id (\<lambda>mb. batch_k s_one mb 0 1) (slice_rows M_one 0 1) = Inr 2 \<and>
         int (ncols M_one) < 2 \<and>
         fit_multi (init 0 0 0 0 2 2 12) M_one M_one 1 1 = Inl RuntimeError"
  using predict_topk_fails[OF assms] predict_topk_succeeds[OF assms] batch_k_one fit_multi_uncapped
  by (simp add: M_one_def)

theorem predict_topk_total_iff_k_le_ncols_witness:
  "fitted_on s_scn M_scn \<and>
   predict_topk s_scn M_scn M_scn 0 4 4 = Inl RuntimeError \<and>
   predict_topk s_scn M_scn M_scn 0 4 2 = Inr [[2], [0, 1], [], []] \<and>
   isl (predict_topk s_scn M_scn M_scn 0 4 4) \<and> \<not> isl (predict_topk s_scn M_scn M_scn 0 4 2)"
proof -
  have h: "fitted_on s_scn M_scn" by (simp add: fitted_on_def s_scn_def M_scn_def)
  have 1: "predict_topk s_scn M_scn M_scn 0 4 4 = Inl RuntimeError" by code_simp
  have 2: "predict_topk s_scn M_scn M_scn 0 4 2 = Inr [[2], [0, 1], [], []]" by code_simp
  have 3: "isl (predict_topk s_scn M_scn M_scn 0 4 4)"
    using predict_topk_total_iff_k_le_ncols[OF h, of 4 M_scn 0 4] by (simp add: M_scn_def)
  have 4: "\<not> isl (predict_topk s_scn M_scn M_scn 0 4 2)"
    using predict_topk_total_iff_k_le_ncols[OF h, of 2 M_scn 0 4] by (simp add: M_scn_def)
  from h 1 2 3 4 show ?thesis by blast
qed

text \<open>
  Claim C3. One augmentation round of \<open>fit_multi\<close>, from the state \<open>s\<close> that a call of
  \<open>fit\<close> on \<open>M\<close> has left (the first fit, or the fit that ended the round before). The
  sweep starts from a copy of \<open>M\<close>; if it returns \<open>M_new\<close>, then \<open>M_new\<close> has the shape of
  \<open>M\<close> and stores no coordinate twice, the cell of every pair that \<open>predict_topk\<close> returned
  for a batch of the sweep holds the maximum of its value in \<open>M\<close> and 1, and every other
  cell is as in \<open>M\<close>. The round then stores the row and column sums of \<open>M_new\<close> as
  degrees and calls \<open>fit(M)\<close>, which succeeds with a state \<open>s'\<close> whose two propagation
  matrices are built from the non-zero triplets of the original \<open>M\<close>, weighted by the
  degrees of \<open>M_new\<close>. A run of one round returns \<open>s'\<close>, a run of more rounds continues
  from \<open>s'\<close>, and \<open>fit_multi\<close> on a predictor of at least two rounds is the run of the
  remaining rounds from \<open>s'\<close>.
\<close>

theorem fit_multi_round:
  assumes "fit s0 M = Inr s" and "2 \<le> lp_rounds s0" and "in_bounds M" and "no_dups M"
    and "0 < batch_size"
    and "sweep s G M batch_size tot (range_starts tot batch_size) M = Inr M_new"
  shows "no_dups M_new \<and> nrows M_new = nrows M \<and> ncols M_new = ncols M \<and>
         (\<forall>i j. cell M_new i j =
                  (if predicted_pair s G M batch_size tot i j
                   then max (cell M i j) 1 else cell M i j)) \<and>
         (\<exists>s'. fit (s\<lparr>user_degrees := Some (sum_dim1 M_new),
                       item_degrees := Some (sum_dim0 M_new)\<rparr>) M = Inr s' \<and>
               user_degrees s' = Some (sum_dim1 M_new) \<and>
               item_degrees s' = Some (sum_dim0 M_new) \<and>
               M_alpha_beta s' =
                 Some (mk_sparse (nrows M) (ncols M)
                         (reweight (map (\<lambda>d. neg_pow d (lp_alpha s)) (sum_dim1 M_new))
                                   (map (\<lambda>d. neg_pow d (lp_beta s)) (sum_dim0 M_new))
                                   (sparse_nonzero M))) \<and>
               M_gamma_delta s' =
                 Some (mk_sparse (nrows M) (ncols M)
                         (reweight (map (\<lambda>d. neg_pow d (lp_gamma s)) (sum_dim1 M_new))
                                   (map (\<lambda>d. neg_pow d (lp_delta s)) (sum_dim0 M_new))
                                   (sparse_nonzero M))) \<and>
               fit_rounds (Suc 0) s G M batch_size tot = Inr s' \<and>
               fit_rounds (Suc n) s G M batch_size tot = fit_rounds n s' G M batch_size tot \<and>
               fit_multi s0 G M batch_size tot =
                 fit_rounds (nat (lp_rounds s0 - 2)) s' G M batch_size tot)"
proof -
  have fo: "fitted_on s M" using assms(1) by (rule fit_fitted_on)
  note sc = sweep_cells[OF fo refl refl assms(3,4,6)]
  then have sh: "nrows M_new = nrows M" "ncols M_new = ncols M" and nd: "no_dups M_new"
    by simp_all
  have cl: "\<forall>i j. cell M_new i j =
                  (if predicted_pair s G M batch_size tot i j
                   then max (cell M i j) 1 else cell M i j)"
    using sc unfolding predicted_pair_def by blast
  let ?s = "s\<lparr>user_degrees := Some (sum_dim1 M_new), item_degrees := Some (sum_dim0 M_new)\<rparr>"
  let ?s' = "?s\<lparr>M_alpha_beta :=
              Some (mk_sparse (nrows M) (ncols M)
                      (reweight (map (\<lambda>d. neg_pow d (lp_alpha ?s)) (sum_dim1 M_new))
                                (map (\<lambda>d. neg_pow d (lp_beta ?s)) (sum_dim0 M_new))
                                (sparse_nonzero M))),
            M_gamma_delta :=
              Some (mk_sparse (nrows M) (ncols M)
                      (reweight (map (\<lambda>d. neg_pow d (lp_gamma ?s)) (sum_dim1 M_new))
                                (map (\<lambda>d. neg_pow d (lp_delta ?s)) (sum_dim0 M_new))
                                (sparse_nonzero M)))\<rparr>"
  have b: "\<forall>e \<in> set (sparse_nonzero M).
             0 \<le> e_row e \<and> e_row e < int (length (sum_dim1 M_new)) \<and>
             0 \<le> e_col e \<and> e_col e < int (length (sum_dim0 M_new))"
    using nonzero_in_bounds[OF assms(3)] sh by simp
  have f: "fit ?s M = Inr ?s'"
    by (rule fit_cached[OF _ _ b]) simp_all
  have r: "fit_rounds (Suc n) s G M batch_size tot = fit_rounds n ?s' G M batch_size tot"
    for n
    using assms(5,6) f by simp
  have r1: "fit_rounds (Suc 0) s G M batch_size tot = Inr ?s'"
    using r[of 0] by simp
  have "lp_rounds s = lp_rounds s0" using fit_params[OF assms(1)] by simp
  then have "nat (lp_rounds s - 1) = Suc (nat (lp_rounds s0 - 2))" using assms(2) by simp
  then have m: "fit_multi s0 G M batch_size tot =
                fit_rounds (nat (lp_rounds s0 - 2)) ?s' G M batch_size tot"
    using assms(1) r[of "nat (lp_rounds s0 - 2)"] by (simp add: fit_multi_def)
  have "fit ?s M = Inr ?s' \<and>
        user_degrees ?s' = Some (sum_dim1 M_new) \<and>
        item_degrees ?s' = Some (sum_dim0 M_new) \<and>
        M_alpha_beta ?s' =
          Some (mk_sparse (nrows M) (ncols M)
                  (reweight (map (\<lambda>d. neg_pow d (lp_alpha s)) (sum_dim1 M_new))
                            (map (\<lambda>d. neg_pow d (lp_beta s)) (sum_dim0 M_new))
                            (sparse_nonzero M))) \<and>
        M_gamma_delta ?s' =
          Some (mk_sparse (nrows M) (ncols M)
                  (reweight (map (\<lambda>d. neg_pow d (lp_gamma s)) (sum_dim1 M_new))
                            (map (\<lambda>d. neg_pow d (lp_delta s)) (sum_dim0 M_new))
                            (sparse_nonzero M))) \<and>
        fit_rounds (Suc 0) s G M batch_size tot = Inr ?s' \<and>
        fit_rounds (Suc n) s G M batch_size tot = fit_rounds n ?s' G M batch_size tot \<and>
        fit_multi s0 G M batch_size tot =
          fit_rounds (nat (lp_rounds s0 - 2)) ?s' G M batch_size tot"
    using f r r1 m by simp
  then show ?thesis using nd sh cl by blast
qed

text \<open>
  The scenario of the specification, two rounds: the sweep predicts the pairs (0, 2) and
  (1, 0), which are absent from \<open>M_scn\<close> and hold 1 in the working copy.
\<close>

theorem fit_multi_round_witness:
  "fit (init 0 0 0 0 2 (1/2) 2) M_scn = Inr s_scn \<and> 2 \<le> lp_rounds (init 0 0 0 0 2 (1/2) 2) \<and>
   in_bounds M_scn \<and> no_dups M_scn \<and> (0::nat) < 2 \<and>
   sweep s_scn M_scn M_scn 2 4 (range_starts 4 2) M_scn = Inr M_scn_new \<and>
   predicted_pair s_scn M_scn M_scn 2 4 0 2 \<and> cell M_scn 0 2 = 0 \<and> cell M_scn_new 0 2 = 1 \<and>
   (no_dups M_scn_new \<and> nrows M_scn_new = nrows M_scn \<and> ncols M_scn_new = ncols M_scn \<and>
         (\<forall>i j. cell M_scn_new i j =
                  (if predicted_pair s_scn M_scn M_scn 2 4 i j
                   then max (cell M_scn i j) 1 else cell M_scn i j)) \<and>
         (\<exists>s'. fit (s_scn\<lparr>user_degrees := Some (sum_dim1 M_scn_new),
                       item_degrees := Some (sum_dim0 M_scn_new)\<rparr>) M_scn = Inr s' \<and>
               user_degrees s' = Some (sum_dim1 M_scn_new) \<and>
               item_degrees s' = Some (sum_dim0 M_scn_new) \<and>
               M_alpha_beta s' =
                 Some (mk_sparse (nrows M_scn) (ncols M_scn)
                         (reweight (map (\<lambda>d. neg_pow d (lp_alpha s_scn)) (sum_dim1 M_scn_new))
                                   (map (\<lambda>d. neg_pow d (lp_beta s_scn)) (sum_dim0 M_scn_new))
                                   (sparse_nonzero M_scn))) \<and>
               M_gamma_delta s' =
                 Some (mk_sparse (nrows M_scn) (ncols M_scn)
                         (reweight (map (\<lambda>d. neg_pow d (lp_gamma s_scn)) (sum_dim1 M_scn_new))
                                   (map (\<lambda>d. neg_pow d (lp_delta s_scn)) (sum_dim0 M_scn_new))
                                   (sparse_nonzero M_scn))) \<and>
               fit_rounds (Suc 0) s_scn M_scn M_scn 2 4 = Inr s' \<and>
               fit_rounds (Suc 0) s_scn M_scn M_scn 2 4 = fit_rounds 0 s' M_scn M_scn 2 4 \<and>
               fit_multi (init 0 0 0 0 2 (1/2) 2) M_scn M_scn 2 4 =
                 fit_rounds (nat (lp_rounds (init 0 0 0 0 2 (1/2) 2) - 2)) s' M_scn M_scn 2 4))"
proof -
  have h1: "fit (init 0 0 0 0 2 (1/2) 2) M_scn = Inr s_scn" by (rule fit_scn)
  have h2: "2 \<le> lp_rounds (init 0 0 0 0 2 (1/2) 2)" "in_bounds M_scn" "no_dups M_scn"
    "(0::nat) < 2"
    by (simp_all add: init_def M_scn_def in_bounds_def no_dups_def coord_def)
  note h = h1 h2
  have swp: "sweep s_scn M_scn M_scn 2 4 (range_starts 4 2) M_scn = Inr M_scn_new"
    unfolding M_scn_new_def by code_simp
  have p: "predicted_pair s_scn M_scn M_scn 2 4 0 2" by code_simp
  have c0: "cell M_scn 0 2 = 0" by code_simp
  have c1: "cell M_scn_new 0 2 = 1" by code_simp
  note c = fit_multi_round[OF h swp, of 0]
  show ?thesis
    by (rule conjI[OF h(1) conjI[OF h(2) conjI[OF h(3) conjI[OF h(4) conjI[OF h(5)
          conjI[OF swp conjI[OF p conjI[OF c0 conjI[OF c1 c]]]]]]]]])
qed

end
